theory Spec2Isabelle
  imports Main
begin

section \<open>JavaScript values\<close>

text \<open>
  A JavaScript string is a sequence of UTF-16 code units; \<open>jstring\<close> keeps the code
  units as natural numbers, so that \<open>length\<close>, \<open>substring\<close> and \<open>trim\<close> count what the
  source counts.  ASCII literals are written \<open>js ''...''\<close>; the literals of the source that
  are not ASCII are spelled out by their code units.

  Numbers are modelled by \<open>int\<close>: every number the modelled code computes with (durations,
  timestamps, percentages) is an integer, and the model is exact for integers below
  \<open>2^53\<close> in absolute value, where IEEE doubles are exact.
\<close>

type_synonym jstring = "nat list"

abbreviation js :: "string \<Rightarrow> jstring" where
  "js s \<equiv> map of_char s"

text \<open>\<open>Number.prototype.toString\<close> (radix 10) on an integer.\<close>

function digits10 :: "nat \<Rightarrow> jstring" where
  "digits10 n = (if n < 10 then [48 + n] else digits10 (n div 10) @ [48 + n mod 10])"
  by pat_completeness auto
termination
  by (relation "measure (\<lambda>n. n)") auto

definition num_to_string :: "int \<Rightarrow> jstring" where
  "num_to_string i = (if i < 0 then 45 # digits10 (nat (- i)) else digits10 (nat i))"

text \<open>
  The white space of ECMAScript (\<open>WhiteSpace\<close> and \<open>LineTerminator\<close>), which
  \<open>String.prototype.trim\<close> strips at both ends and \<open>parseInt\<close> skips at the start.
\<close>

definition is_space :: "nat \<Rightarrow> bool" where
  "is_space c \<longleftrightarrow>
     c \<in> set [0x09, 0x0A, 0x0B, 0x0C, 0x0D, 0x20, 0xA0, 0x1680, 0x2028, 0x2029,
              0x202F, 0x205F, 0x3000, 0xFEFF]
     \<or> (0x2000 \<le> c \<and> c \<le> 0x200A)"

definition trim :: "jstring \<Rightarrow> jstring" where
  "trim s = rev (dropWhile is_space (rev (dropWhile is_space s)))"

text \<open>\<open>Array.prototype.join\<close> on an array of strings.\<close>

fun join :: "jstring \<Rightarrow> jstring list \<Rightarrow> jstring" where
  "join sep [] = []"
| "join sep [x] = x"
| "join sep (x # y # ys) = x @ sep @ join sep (y # ys)"

text \<open>
  \<open>parseInt(value)\<close> without a radix argument: leading white space is skipped, a sign is
  read, the prefix \<open>0x\<close> selects radix 16, the longest run of digits is converted;
  \<open>None\<close> is \<open>NaN\<close> (no digit at all).
\<close>

definition digit_value :: "nat \<Rightarrow> nat" where
  "digit_value c =
     (if 48 \<le> c \<and> c \<le> 57 then c - 48
      else if 97 \<le> c \<and> c \<le> 122 then c - 87
      else if 65 \<le> c \<and> c \<le> 90 then c - 55
      else 36)"

definition parseInt :: "jstring \<Rightarrow> int option" where
  "parseInt str =
     (let s0 = dropWhile is_space str;
          negative = (case s0 of [] \<Rightarrow> False | c # _ \<Rightarrow> c = 45);
          s1 = (case s0 of [] \<Rightarrow> [] | c # r \<Rightarrow> if c = 45 \<or> c = 43 then r else s0);
          hex = (case s1 of a # b # _ \<Rightarrow> a = 48 \<and> (b = 120 \<or> b = 88) | _ \<Rightarrow> False);
          radix = (if hex then 16 else 10);
          s2 = (if hex then drop 2 s1 else s1);
          ds = takeWhile (\<lambda>c. digit_value c < radix) s2;
          mathInt = int (foldl (\<lambda>a c. a * radix + digit_value c) 0 ds)
      in if ds = [] then None
         else Some (if negative then - mathInt else mathInt))"

section \<open>The storyboard of the create panel\<close>

text \<open>
  \<open>interface StoryboardSegment { id: string; duration: number; description: string }\<close>
  of \<open>CreatePanel.tsx\<close>; the field \<open>id\<close> is named \<open>seg_id\<close> here.
\<close>

record segment =
  seg_id :: jstring
  duration :: int
  description :: jstring

datatype view = Edit | Preview

text \<open>
  The state variables of the component that the storyboard code reads and writes.
  \<open>videoDuration\<close> is the state variable \<open>duration\<close> (the target duration of the
  video), \<open>panelError\<close> the state variable \<open>error\<close> (\<open>None\<close> is \<open>null\<close>).
\<close>

record panel =
  isStoryboardMode :: bool
  storyboardView :: view
  storyboardSegments :: "segment list"
  previewPrompt :: jstring
  videoDuration :: int
  panelError :: "jstring option"

text \<open>The initial state: \<open>useState\<close> defaults of lines 30--55.\<close>

definition initial_panel :: panel where
  "initial_panel =
     \<lparr> isStoryboardMode = False, storyboardView = Edit,
       storyboardSegments = [\<lparr> seg_id = js ''1'', duration = 5, description = [] \<rparr>],
       previewPrompt = [], videoDuration = 10, panelError = None \<rparr>"

text \<open>
  \<open>storyboardSegments.reduce((sum, seg) => sum + (Number(seg.duration) || 0), 0)\<close>
\<close>

definition totalSegmentDuration :: "panel \<Rightarrow> int" where
  "totalSegmentDuration s =
     foldl (\<lambda>sum seg. sum + (if duration seg = 0 then 0 else duration seg)) 0
       (storyboardSegments s)"

text \<open>The messages passed to \<open>setError\<close>, by their UTF-16 code units.\<close>

definition msg_segments_full :: jstring where
  "msg_segments_full =
     [0x5206, 0x955c, 0x603b, 0x65f6, 0x957f, 0x5df2, 0x8fbe, 0x5230, 0x89c6, 0x9891, 0x603b,
      0x65f6, 0x957f, 0xff0c, 0x65e0, 0x6cd5, 0x6dfb, 0x52a0, 0x66f4, 0x591a, 0x5206, 0x955c]"

definition msg_total_mismatch :: "int \<Rightarrow> int \<Rightarrow> jstring" where
  "msg_total_mismatch tot target =
     [0x5206, 0x955c, 0x603b, 0x65f6, 0x957f, 32, 40] @ num_to_string tot
     @ [115, 41, 32, 0x5fc5, 0x987b, 0x7b49, 0x4e8e, 0x89c6, 0x9891, 0x603b, 0x65f6, 0x957f, 32, 40]
     @ num_to_string target @ [115, 41]"

definition msg_descriptions_missing :: jstring where
  "msg_descriptions_missing =
     [0x8bf7, 0x5b8c, 0x5584, 0x6240, 0x6709, 0x5206, 0x955c, 0x7684, 0x573a, 0x666f, 0x63cf,
      0x8ff0]"

text \<open>
  \<open>addSegment\<close> (lines 240--252).  The argument \<open>rnd\<close> is the identifier the source
  draws, \<open>Math.random().toString(36).substring(2, 9)\<close>.
\<close>

definition addSegment :: "jstring \<Rightarrow> panel \<Rightarrow> panel" where
  "addSegment rnd s =
     (if totalSegmentDuration s \<ge> videoDuration s
      then s\<lparr> panelError := Some msg_segments_full \<rparr>
      else
        let remaining = max 1 (videoDuration s - totalSegmentDuration s);
            nextDuration = min 5 remaining
        in s\<lparr> storyboardSegments :=
                 storyboardSegments s
                 @ [\<lparr> seg_id = rnd, duration = nextDuration, description = [] \<rparr>] \<rparr>)"

text \<open>\<open>removeSegment\<close> (lines 254--258).\<close>

definition removeSegment :: "jstring \<Rightarrow> panel \<Rightarrow> panel" where
  "removeSegment i s =
     (if length (storyboardSegments s) > 1
      then s\<lparr> storyboardSegments := filter (\<lambda>x. seg_id x \<noteq> i) (storyboardSegments s) \<rparr>
      else s)"

text \<open>
  \<open>updateSegment\<close> (lines 260--274); \<open>field\<close> is \<open>keyof StoryboardSegment\<close>, the
  value is the string of the input element.
\<close>

datatype field = FieldId | FieldDuration | FieldDescription

definition otherSegmentsTotal :: "jstring \<Rightarrow> panel \<Rightarrow> int" where
  "otherSegmentsTotal i s =
     foldl (\<lambda>sum x. sum + duration x) 0 (filter (\<lambda>x. seg_id x \<noteq> i) (storyboardSegments s))"

definition updateSegment :: "jstring \<Rightarrow> field \<Rightarrow> jstring \<Rightarrow> panel \<Rightarrow> panel" where
  "updateSegment i fld val s =
     (case fld of
        FieldDuration \<Rightarrow>
          let numVal = max 0 (case parseInt val of None \<Rightarrow> 0
                               | Some n \<Rightarrow> if n = 0 then 0 else n);
              maxAllowed = videoDuration s - otherSegmentsTotal i s;
              finalVal = min numVal maxAllowed
          in s\<lparr> storyboardSegments :=
                   map (\<lambda>x. if seg_id x = i then x\<lparr> duration := finalVal \<rparr> else x)
                     (storyboardSegments s) \<rparr>
      | FieldDescription \<Rightarrow>
          s\<lparr> storyboardSegments :=
                map (\<lambda>x. if seg_id x = i then x\<lparr> description := val \<rparr> else x)
                  (storyboardSegments s) \<rparr>
      | FieldId \<Rightarrow>
          s\<lparr> storyboardSegments :=
                map (\<lambda>x. if seg_id x = i then x\<lparr> seg_id := val \<rparr> else x)
                  (storyboardSegments s) \<rparr>)"

text \<open>
  The effect on \<open>[duration, isStoryboardMode]\<close> (lines 108--141).  \<open>clamp_loop\<close> is the
  \<open>for\<close> loop: its arguments are the target, \<open>accumulatedTime\<close> and the segments still
  to visit, its result the segments pushed to \<open>newSegments\<close> from here on.  \<open>now\<close> is
  the reading of \<open>Date.now()\<close>.
\<close>

fun clamp_loop :: "int \<Rightarrow> int \<Rightarrow> segment list \<Rightarrow> segment list" where
  "clamp_loop target accumulatedTime [] = []"
| "clamp_loop target accumulatedTime (seg # rest) =
     (if accumulatedTime \<ge> target then []
      else
        let segDuration =
              (if accumulatedTime + duration seg > target then target - accumulatedTime
               else duration seg)
        in if segDuration > 0
           then seg\<lparr> duration := segDuration \<rparr>
                # clamp_loop target (accumulatedTime + segDuration) rest
           else clamp_loop target accumulatedTime rest)"

definition clampSegments :: "int \<Rightarrow> int \<Rightarrow> segment list \<Rightarrow> segment list" where
  "clampSegments now target prevSegments =
     (let newSegments = clamp_loop target 0 prevSegments
      in if length newSegments = 0
         then [\<lparr> seg_id = num_to_string now, duration = target, description = [] \<rparr>]
         else newSegments)"

definition durationEffect :: "int \<Rightarrow> panel \<Rightarrow> panel" where
  "durationEffect now s =
     (if isStoryboardMode s
      then s\<lparr> storyboardSegments := clampSegments now (videoDuration s) (storyboardSegments s) \<rparr>
      else s)"

text \<open>
  The reconciliation as section 4.2 of the specification words it: the segments are
  replayed in order, a segment that would push the cumulative total past the target is
  truncated, everything after the total has reached the target is dropped, and one
  segment spanning the target is synthesized when nothing is left.
\<close>

fun replay_spec :: "int \<Rightarrow> int \<Rightarrow> segment list \<Rightarrow> segment list" where
  "replay_spec target tot [] = []"
| "replay_spec target tot (seg # rest) =
     (if tot \<ge> target then []
      else if tot + duration seg > target then [seg\<lparr> duration := target - tot \<rparr>]
      else seg # replay_spec target (tot + duration seg) rest)"

definition reconcile_spec :: "int \<Rightarrow> int \<Rightarrow> segment list \<Rightarrow> segment list" where
  "reconcile_spec now target segs =
     (case replay_spec target 0 segs of
        [] \<Rightarrow> [\<lparr> seg_id = num_to_string now, duration = target, description = [] \<rparr>]
      | kept \<Rightarrow> kept)"

text \<open>
  \<open>handlePreviewAndOptimize\<close> (lines 276--299).  \<open>script_parts\<close> is the \<open>map\<close> with
  the running variable \<open>currentTime\<close>.
\<close>

fun script_parts :: "int \<Rightarrow> segment list \<Rightarrow> jstring list" where
  "script_parts currentTime [] = []"
| "script_parts currentTime (seg # rest) =
     (let start = currentTime;
          end' = currentTime + duration seg;
          part = js ''['' @ num_to_string start @ js ''s-'' @ num_to_string end' @ js ''s] ''
                 @ description seg
      in part # script_parts end' rest)"

definition handlePreviewAndOptimize :: "panel \<Rightarrow> panel" where
  "handlePreviewAndOptimize s =
     (if totalSegmentDuration s \<noteq> videoDuration s
      then s\<lparr> panelError := Some (msg_total_mismatch (totalSegmentDuration s) (videoDuration s)) \<rparr>
      else if list_ex (\<lambda>x. trim (description x) = []) (storyboardSegments s)
      then s\<lparr> panelError := Some msg_descriptions_missing \<rparr>
      else s\<lparr> previewPrompt := join [10, 10] (script_parts 0 (storyboardSegments s)),
               panelError := None,
               storyboardView := Preview \<rparr>)"

text \<open>
  The cumulative boundaries of the preview as the specification words them: segment
  \<open>i\<close> starts where the durations of the segments before it end, and ends where
  segment \<open>i + 1\<close> starts.  \<open>preview_ready\<close> is the condition under which the
  source builds the preview.
\<close>

definition segment_start :: "segment list \<Rightarrow> nat \<Rightarrow> int" where
  "segment_start segs i = sum_list (map duration (take i segs))"

definition preview_part :: "segment list \<Rightarrow> nat \<Rightarrow> jstring" where
  "preview_part segs i =
     js ''['' @ num_to_string (segment_start segs i) @ js ''s-''
     @ num_to_string (segment_start segs (Suc i)) @ js ''s] '' @ description (segs ! i)"

definition preview_ready :: "panel \<Rightarrow> bool" where
  "preview_ready s \<longleftrightarrow>
     sum_list (map duration (storyboardSegments s)) = videoDuration s
     \<and> list_all (\<lambda>x. trim (description x) \<noteq> []) (storyboardSegments s)"

text \<open>
  The state update of \<open>handleOptimize\<close> in the edit view (lines 185--188);
  \<open>optimizedParts\<close> is the reply of the optimizer split at \<open>|||\<close>.
\<close>

definition applyOptimizedParts :: "jstring list \<Rightarrow> panel \<Rightarrow> panel" where
  "applyOptimizedParts optimizedParts s =
     s\<lparr> storyboardSegments :=
          map (\<lambda>(seg, idx).
                 seg\<lparr> description :=
                        (if idx < length optimizedParts \<and> trim (optimizedParts ! idx) \<noteq> []
                         then trim (optimizedParts ! idx) else description seg) \<rparr>)
            (zip (storyboardSegments s) [0..<length (storyboardSegments s)]) \<rparr>"

text \<open>
  The events that write the storyboard state.  Selecting a duration and toggling the
  storyboard mode change a dependency of the effect of lines 108--141, which then runs;
  leaving the storyboard mode resets the view (lines 104--106).  The editing events are
  the calls the rendered controls make (lines 731, 739, 745, 760, 767, 782).
\<close>

datatype event =
    ToggleStoryboardMode int
  | SelectDuration int int
  | AddSegment jstring
  | RemoveSegment jstring
  | EditDuration jstring jstring
  | EditDescription jstring jstring
  | ApplyOptimized "jstring list"
  | PreviewAndOptimize
  | BackToEdit

fun step :: "event \<Rightarrow> panel \<Rightarrow> panel" where
  "step (ToggleStoryboardMode now) s =
     (let s1 = s\<lparr> isStoryboardMode := \<not> isStoryboardMode s \<rparr>;
          s2 = (if \<not> isStoryboardMode s1 then s1\<lparr> storyboardView := Edit \<rparr> else s1)
      in durationEffect now s2)"
| "step (SelectDuration d now) s =
     (if d = videoDuration s then s else durationEffect now (s\<lparr> videoDuration := d \<rparr>))"
| "step (AddSegment rnd) s = addSegment rnd s"
| "step (RemoveSegment i) s = removeSegment i s"
| "step (EditDuration i val) s = updateSegment i FieldDuration val s"
| "step (EditDescription i val) s = updateSegment i FieldDescription val s"
| "step (ApplyOptimized parts) s = applyOptimizedParts parts s"
| "step PreviewAndOptimize s = handlePreviewAndOptimize s"
| "step BackToEdit s = s\<lparr> storyboardView := Edit \<rparr>"

fun run :: "event list \<Rightarrow> panel \<Rightarrow> panel" where
  "run [] s = s"
| "run (e # es) s = run es (step e s)"

text \<open>
  \<open>fresh_ids es s\<close>: every identifier drawn for a new segment along the run differs
  from the identifiers of the segments present when it is drawn.
\<close>

fun fresh_ids :: "event list \<Rightarrow> panel \<Rightarrow> bool" where
  "fresh_ids [] s = True"
| "fresh_ids (e # es) s =
     ((case e of AddSegment rnd \<Rightarrow> rnd \<notin> set (map seg_id (storyboardSegments s)) | _ \<Rightarrow> True)
      \<and> fresh_ids es (step e s))"

fun edits_and_additions :: "event list \<Rightarrow> bool" where
  "edits_and_additions [] = True"
| "edits_and_additions (e # es) =
     ((case e of AddSegment _ \<Rightarrow> True | EditDuration _ _ \<Rightarrow> True | _ \<Rightarrow> False)
      \<and> edits_and_additions es)"

text \<open>Example states used below.\<close>

definition two_scene_panel :: panel where
  "two_scene_panel =
     \<lparr> isStoryboardMode = True, storyboardView = Edit,
       storyboardSegments =
         [\<lparr> seg_id = js ''1'', duration = 4, description = js ''A'' \<rparr>,
          \<lparr> seg_id = js ''k3x9q2a'', duration = 6, description = js ''B'' \<rparr>],
       previewPrompt = [], videoDuration = 10, panelError = None \<rparr>"

definition blank_scene_panel :: panel where
  "blank_scene_panel =
     \<lparr> isStoryboardMode = True, storyboardView = Edit,
       storyboardSegments = [\<lparr> seg_id = js ''1'', duration = 10, description = js '' '' \<rparr>],
       previewPrompt = [], videoDuration = 10, panelError = None \<rparr>"

text \<open>
  Runs of events from the initial state in which \<open>Math.random\<close> yields the same
  identifier twice, and a run in which it does not.
\<close>

definition clash_events :: "event list" where
  "clash_events =
     [EditDuration (js ''1'') (js ''1''),
      AddSegment (js ''k3x9q2a''), AddSegment (js ''k3x9q2a''),
      EditDuration (js ''k3x9q2a'') (js ''10'')]"

definition emptying_events :: "event list" where
  "emptying_events =
     [ToggleStoryboardMode 1700000000000, EditDuration (js ''1'') (js ''1''),
      AddSegment (js ''k3x9q2a''), AddSegment (js ''k3x9q2a''),
      RemoveSegment (js ''1''), RemoveSegment (js ''k3x9q2a'')]"

definition editing_events :: "event list" where
  "editing_events =
     [EditDuration (js ''1'') (js ''3''), AddSegment (js ''k3x9q2a''),
      EditDuration (js ''k3x9q2a'') (js ''9'')]"

definition session_events :: "event list" where
  "session_events =
     [ToggleStoryboardMode 1700000000000, AddSegment (js ''k3x9q2a''),
      RemoveSegment (js ''1''), RemoveSegment (js ''k3x9q2a''),
      SelectDuration 15 1700000004000]"

text \<open>
  A run from the initial state that leaves three described segments of 5, 0 and 5 seconds
  under the target 15 (the duration field of the second segment is set to 0), and a
  state with segments of 4, 0, 8 and 3 seconds under the target 15.
\<close>

definition zero_duration_events :: "event list" where
  "zero_duration_events =
     [ToggleStoryboardMode 1700000000000, SelectDuration 15 1700000001000,
      EditDescription (js ''1'') (js ''A''),
      AddSegment (js ''k3x9q2a''), EditDescription (js ''k3x9q2a'') (js ''B''),
      AddSegment (js ''m7p1z0c''), EditDescription (js ''m7p1z0c'') (js ''C''),
      EditDuration (js ''k3x9q2a'') (js ''0'')]"

definition four_scene_panel :: panel where
  "four_scene_panel =
     \<lparr> isStoryboardMode = True, storyboardView = Edit,
       storyboardSegments =
         [\<lparr> seg_id = js ''1'', duration = 4, description = js ''A'' \<rparr>,
          \<lparr> seg_id = js ''2'', duration = 0, description = js ''B'' \<rparr>,
          \<lparr> seg_id = js ''3'', duration = 8, description = js ''C'' \<rparr>,
          \<lparr> seg_id = js ''4'', duration = 3, description = js ''D'' \<rparr>],
       previewPrompt = [], videoDuration = 15, panelError = None \<rparr>"

section \<open>The remote API client\<close>

text \<open>
  Values received from the network are untyped: \<open>json\<close> is a value as \<open>JSON.parse\<close>
  returns it (numbers restricted to integers; an object lists each of its keys once),
  and \<open>jsval\<close> adds \<open>undefined\<close> as \<open>None\<close>.
\<close>

datatype json =
    JNull
  | JBool bool
  | JNum int
  | JStr jstring
  | JArr "json list"
  | JObj "(jstring \<times> json) list"

type_synonym jsval = "json option"

text \<open>A thrown \<open>Error\<close> object, by its \<open>name\<close> and \<open>message\<close>.\<close>

datatype exn = Exn (exn_name: jstring) (exn_message: jstring)

text \<open>Truthiness, \<open>a || b\<close>, and \<open>a !== b\<close> (objects and arrays compare by reference,
  and a freshly parsed one is never the stored one).\<close>

fun truthy :: "jsval \<Rightarrow> bool" where
  "truthy None = False"
| "truthy (Some JNull) = False"
| "truthy (Some (JBool b)) = b"
| "truthy (Some (JNum n)) = (n \<noteq> 0)"
| "truthy (Some (JStr s)) = (s \<noteq> [])"
| "truthy (Some (JArr xs)) = True"
| "truthy (Some (JObj kvs)) = True"

definition or_else :: "jsval \<Rightarrow> jsval \<Rightarrow> jsval" where
  "or_else a b = (if truthy a then a else b)"

fun is_reference :: "jsval \<Rightarrow> bool" where
  "is_reference (Some (JArr xs)) = True"
| "is_reference (Some (JObj kvs)) = True"
| "is_reference v = False"

definition strict_neq :: "jsval \<Rightarrow> jsval \<Rightarrow> bool" where
  "strict_neq a b \<longleftrightarrow> is_reference a \<or> is_reference b \<or> a \<noteq> b"

text \<open>
  Property reads, for the property names this code uses (none of them is inherited from a
  prototype).  \<open>read_prop\<close> is \<open>v.k\<close>, which throws a \<open>TypeError\<close> on \<open>null\<close> (the
  message is the one of V8); \<open>opt_prop\<close> is \<open>v?.k\<close> and \<open>opt_index0\<close> is \<open>v?.[0]\<close>.
\<close>

fun lookup_prop :: "json \<Rightarrow> jstring \<Rightarrow> jsval" where
  "lookup_prop (JObj kvs) k = map_of kvs k"
| "lookup_prop v k = None"

definition null_read_error :: "jstring \<Rightarrow> exn" where
  "null_read_error k =
     Exn (js ''TypeError'') (js ''Cannot read properties of null (reading '' @ [39] @ k @ [39, 41])"

fun read_prop :: "json \<Rightarrow> jstring \<Rightarrow> exn + jsval" where
  "read_prop JNull k = Inl (null_read_error k)"
| "read_prop v k = Inr (lookup_prop v k)"

fun opt_prop :: "jsval \<Rightarrow> jstring \<Rightarrow> jsval" where
  "opt_prop None k = None"
| "opt_prop (Some JNull) k = None"
| "opt_prop (Some v) k = lookup_prop v k"

fun opt_index0 :: "jsval \<Rightarrow> jsval" where
  "opt_index0 (Some (JArr (x # xs))) = Some x"
| "opt_index0 (Some (JStr (c # cs))) = Some (JStr [c])"
| "opt_index0 (Some (JObj kvs)) = map_of kvs (js ''0'')"
| "opt_index0 v = None"

text \<open>\<open>ToString\<close>, which \<open>new Error(v)\<close> applies to its argument.\<close>

fun to_message :: "json \<Rightarrow> jstring" where
  "to_message JNull = js ''null''"
| "to_message (JBool b) = (if b then js ''true'' else js ''false'')"
| "to_message (JNum n) = num_to_string n"
| "to_message (JStr s) = s"
| "to_message (JArr xs) =
     join (js '','') (map (\<lambda>x. case x of JNull \<Rightarrow> [] | _ \<Rightarrow> to_message x) xs)"
| "to_message (JObj kvs) = js ''[object Object]''"

text \<open>\<open>String.prototype.includes\<close>, \<open>startsWith\<close> and \<open>split\<close> at one code unit.\<close>

fun js_includes :: "jstring \<Rightarrow> jstring \<Rightarrow> bool" where
  "js_includes [] sub = (sub = [])"
| "js_includes (c # cs) sub = (take (length sub) (c # cs) = sub \<or> js_includes cs sub)"



text \<open>
  Requests and responses of \<open>fetch\<close>.  A JSON body is kept as the value handed to
  \<open>JSON.stringify\<close>.  Of a response the model keeps the status, the body text and the
  outcome of parsing the body as JSON (\<open>Inl\<close> the \<open>SyntaxError\<close> thrown); \<open>fetch\<close>
  itself rejects with an exception or resolves with a response.
\<close>

record blob =
  blob_bytes :: "nat list"
  blob_type :: jstring

datatype form_value = FormText jstring | FormFile blob jstring

datatype body = NoBody | JsonBody json | FormBody "(jstring \<times> form_value) list"

record http_request =
  req_method :: jstring
  req_url :: jstring
  req_headers :: "(jstring \<times> jstring) list"
  req_body :: body

record http_response =
  resp_status :: nat
  resp_text :: jstring
  resp_json :: "exn + json"

datatype fetch_result = Rejects exn | Resolves http_response

definition resp_ok :: "http_response \<Rightarrow> bool" where
  "resp_ok r \<longleftrightarrow> 200 \<le> resp_status r \<and> resp_status r \<le> 299"

text \<open>
  The outcome of an asynchronous function: the effects it had, in order (lines written
  by \<open>console.error\<close>, requests handed to \<open>fetch\<close>), and either the exception it
  throws (\<open>Inl\<close>) or the value it returns.
\<close>

datatype effect = Console jstring "exn option" | Fetch http_request

type_synonym 'a io = "effect list \<times> (exn + 'a)"

definition call_fetch :: "(http_request \<Rightarrow> fetch_result) \<Rightarrow> http_request \<Rightarrow> http_response io" where
  "call_fetch fetch req =
     ([Fetch req], case fetch req of Rejects e \<Rightarrow> Inl e | Resolves r \<Rightarrow> Inr r)"

record api_settings =
  baseUrl :: jstring
  apiKey :: jstring

text \<open>\<open>buildUrl\<close> and \<open>getHeaders\<close> (lines 4--15).\<close>

definition buildUrl :: "jstring \<Rightarrow> jstring \<Rightarrow> jstring" where
  "buildUrl base_url endpoint =
     (let base = rev (dropWhile (\<lambda>c. c = 47) (rev base_url));
          path = dropWhile (\<lambda>c. c = 47) endpoint
      in base @ js ''/'' @ path)"

definition getHeaders :: "jstring \<Rightarrow> (jstring \<times> jstring) list" where
  "getHeaders api_key =
     [(js ''Content-Type'', js ''application/json; charset=utf-8''),
      (js ''Accept'', js ''application/json''),
      (js ''Authorization'', js ''Bearer '' @ api_key)]"

text \<open>\<open>handleFetchError\<close> (lines 18--53), with its two messages that are not ASCII.\<close>

definition msg_network :: jstring where
  "msg_network =
     [0x7f51, 0x7edc, 0x8bf7, 0x6c42, 0x5931, 0x8d25, 0xff1a, 0x8bf7, 0x68c0, 0x67e5, 0x7f51,
      0x7edc, 0x8fde, 0x63a5, 0x3001, 65, 80, 73, 0x5730, 0x5740, 0x914d, 0x7f6e, 0x6216,
      0x8de8, 0x57df, 0x8bbe, 0x7f6e, 40, 67, 79, 82, 83, 41]"

definition msg_not_found :: jstring where
  "msg_not_found =
     [65, 80, 73, 32, 0x8def, 0x5f84, 0x9519, 0x8bef, 32, 40, 52, 48, 52, 41, 58, 32, 0x8bf7,
      0x68c0, 0x67e5, 32, 65, 80, 73, 32, 0x5730, 0x5740, 0x914d, 0x7f6e, 0x3002]"

definition truthy_message :: "jsval \<Rightarrow> jstring option" where
  "truthy_message v =
     (case v of None \<Rightarrow> None
      | Some m \<Rightarrow> if truthy (Some m) then Some (to_message m) else None)"

definition error_body_message :: "http_response \<Rightarrow> jstring" where
  "error_body_message response =
     (let errorText = resp_text response;
          errorMessage = js ''Request failed: '' @ num_to_string (int (resp_status response));
          caught = (if errorText \<noteq> [] then errorMessage @ js '' - '' @ take 100 errorText
                    else errorMessage)
      in case resp_json response of
           Inl e \<Rightarrow> caught
         | Inr errorJson \<Rightarrow>
             (case read_prop errorJson (js ''error'') of
                Inl e \<Rightarrow> caught
              | Inr err \<Rightarrow>
                  (case truthy_message (opt_prop err (js ''message'')) of
                     Some m \<Rightarrow> m
                   | None \<Rightarrow>
                       (case truthy_message (lookup_prop errorJson (js ''message'')) of
                          Some m \<Rightarrow> m
                        | None \<Rightarrow> errorMessage @ js '' - '' @ take 100 errorText))))"

definition handleFetchError :: "exn option \<Rightarrow> http_response option \<Rightarrow> unit io" where
  "handleFetchError error response =
     ([Console (js ''API Call Error:'') error],
      if (case error of None \<Rightarrow> False
          | Some e \<Rightarrow> exn_name e = js ''TypeError'' \<and> exn_message e = js ''Failed to fetch'')
      then Inl (Exn (js ''Error'') msg_network)
      else
        (case (case response of None \<Rightarrow> None
               | Some r \<Rightarrow> if \<not> resp_ok r then Some r else None) of
           Some r \<Rightarrow>
             if resp_status r = 404 then Inl (Exn (js ''Error'') msg_not_found)
             else Inl (Exn (js ''Error'') (error_body_message r))
         | None \<Rightarrow>
             (case error of
                Some e \<Rightarrow> Inl e
              | None \<Rightarrow> Inl (Exn (js ''Error'') (js ''Unknown Error Occurred'')))))"

text \<open>
  \<open>optimizePrompt\<close> (lines 76--124).  \<open>optimize_try\<close> is the \<open>try\<close> block, the
  \<open>catch\<close> block follows in \<open>optimizePrompt\<close>.
\<close>

datatype optimize_mode = TextMode | SegmentsMode | ScriptMode

definition systemContent :: "optimize_mode \<Rightarrow> jstring" where
  "systemContent mode =
     (case mode of
        ScriptMode \<Rightarrow>
          js ''You are an expert film director. Refine the following video storyboard script. You MUST preserve the timestamp format `[start-end]` exactly as is (e.g. `[0s-5s]`) at the beginning of each scene. Improve the scene descriptions to be visually stunning, cinematic, and detailed, ensuring narrative continuity. Output ONLY the fully optimized script text. Do not add conversational filler.''
      | SegmentsMode \<Rightarrow>
          js ''Analyze the following sequence of video storyboard scenes (separated by '|||') as a cohesive narrative. Optimize EACH scene's description to be visually stunning, cinematic, and detailed. Ensure logical continuity and consistent artistic style across the sequence. Return exactly the same number of segments, separated by '|||'. Output ONLY the optimized descriptions.''
      | TextMode \<Rightarrow>
          js ''You are an expert film director and prompt engineer. Reword the user's video description into a highly detailed, visual, and cinematic prompt suitable for AI video generation (like Sora). Focus on lighting, camera angles, texture, and motion. Output ONLY the optimized prompt, no conversational filler. Do NOT include video duration, length, aspect ratio, resolution, or technical camera settings (like 4k, 16:9) in the generated text.'')"

definition optimize_request :: "jstring \<Rightarrow> api_settings \<Rightarrow> optimize_mode \<Rightarrow> http_request" where
  "optimize_request user_prompt settings mode =
     \<lparr> req_method = js ''POST'',
       req_url = buildUrl (baseUrl settings) (js ''v1/chat/completions''),
       req_headers = getHeaders (apiKey settings),
       req_body =
         JsonBody
           (JObj [(js ''model'', JStr (js ''gpt-5'')),
                  (js ''messages'',
                   JArr [JObj [(js ''role'', JStr (js ''system'')),
                               (js ''content'', JStr (systemContent mode))],
                         JObj [(js ''role'', JStr (js ''user'')),
                               (js ''content'', JStr user_prompt)]]),
                  (js ''stream'', JBool False)]) \<rparr>"

text \<open>
  The statement \<open>if (!response.ok) { await handleFetchError(null, response); }\<close>, which
  every operation runs on the response.
\<close>

definition check_ok :: "http_response \<Rightarrow> unit io" where
  "check_ok response =
     (if \<not> resp_ok response then handleFetchError None (Some response) else ([], Inr ()))"

definition optimize_try ::
  "(http_request \<Rightarrow> fetch_result) \<Rightarrow> jstring \<Rightarrow> api_settings \<Rightarrow> optimize_mode \<Rightarrow> jsval io"
where
  "optimize_try fetch user_prompt settings mode =
     (case call_fetch fetch (optimize_request user_prompt settings mode) of
        (e0, Inl err) \<Rightarrow> (e0, Inl err)
      | (e0, Inr response) \<Rightarrow>
          (case check_ok response of
             (e1, Inl err) \<Rightarrow> (e0 @ e1, Inl err)
           | (e1, Inr _) \<Rightarrow>
               (case resp_json response of
                  Inl err \<Rightarrow> (e0 @ e1, Inl err)
                | Inr data \<Rightarrow>
                    (case read_prop data (js ''choices'') of
                       Inl err \<Rightarrow> (e0 @ e1, Inl err)
                     | Inr choices \<Rightarrow>
                         (e0 @ e1,
                          Inr (or_else
                                 (opt_prop (opt_prop (opt_index0 choices) (js ''message''))
                                    (js ''content''))
                                 (Some (JStr user_prompt))))))))"

definition optimizePrompt ::
  "(http_request \<Rightarrow> fetch_result) \<Rightarrow> jstring \<Rightarrow> api_settings \<Rightarrow> optimize_mode \<Rightarrow> jsval io"
where
  "optimizePrompt fetch user_prompt settings mode =
     (if user_prompt = [] then ([], Inr (Some (JStr [])))
      else
        (case optimize_try fetch user_prompt settings mode of
           (e0, Inr v) \<Rightarrow> (e0, Inr v)
         | (e0, Inl error) \<Rightarrow>
             (case handleFetchError (Some error) None of
                (e1, Inl err) \<Rightarrow> (e0 @ e1, Inl err)
              | (e1, Inr _) \<Rightarrow> (e0 @ e1, Inr (Some (JStr user_prompt))))))"





text \<open>
  \<open>createVideoTask\<close> (lines 129--189) on a \<open>CreateVideoRequest\<close>.  \<open>image_fields\<close>
  is the block "Handle Image Input" (lines 149--161), \<open>video_form_data\<close> all the
  \<open>formData.append\<close> calls in order.
\<close>

datatype orientation = Portrait | Landscape

datatype video_size = Small | Large

record create_video_request =
  cv_model :: jstring
  cv_prompt :: jstring
  images :: "jstring list"
  cv_orientation :: orientation
  cv_duration :: int
  cv_size :: video_size
  character_url :: "jstring option"
  character_timestamps :: "jstring option"


definition character_fields :: "create_video_request \<Rightarrow> (jstring \<times> form_value) list" where
  "character_fields request =
     (case character_url request of
        None \<Rightarrow> []
      | Some u \<Rightarrow> if u \<noteq> [] then [(js ''character_url'', FormText u)] else [])
     @ (case character_timestamps request of
          None \<Rightarrow> []
        | Some t \<Rightarrow> if t \<noteq> [] then [(js ''character_timestamps'', FormText t)] else [])"




text \<open>\<open>queryVideoTask\<close> (lines 220--246).\<close>

definition query_request :: "api_settings \<Rightarrow> jstring \<Rightarrow> http_request" where
  "query_request settings taskId =
     \<lparr> req_method = js ''GET'',
       req_url = buildUrl (baseUrl settings) (js ''v1/videos/'' @ taskId),
       req_headers = getHeaders (apiKey settings),
       req_body = NoBody \<rparr>"

definition queryVideoTask ::
  "(http_request \<Rightarrow> fetch_result) \<Rightarrow> jstring \<Rightarrow> api_settings \<Rightarrow> json io"
where
  "queryVideoTask fetch taskId settings =
     (case (case call_fetch fetch (query_request settings taskId) of
              (e0, Inl err) \<Rightarrow> (e0, Inl err)
            | (e0, Inr response) \<Rightarrow>
                (case check_ok response of
                   (e1, Inl err) \<Rightarrow> (e0 @ e1, Inl err)
                 | (e1, Inr _) \<Rightarrow> (e0 @ e1, resp_json response))) of
        (e, Inr v) \<Rightarrow> (e, Inr v)
      | (e, Inl error) \<Rightarrow>
          if js_includes (exn_message error) (js ''NetworkError'') then (e, Inl error)
          else (e @ [Console (js ''Error querying video task:'') (Some error)], Inl error))"

text \<open>
  The error translation in the words of the specification: a request fails when
  \<open>fetch\<close> rejects or resolves with a status outside 200--299; the message extracted
  from a parsed error body is \<open>error.message\<close> if that is truthy, else \<open>message\<close> if
  that is truthy; the fallback message starts with the numeric status code.
\<close>

definition request_fails :: "fetch_result \<Rightarrow> bool" where
  "request_fails outcome = (case outcome of Rejects e \<Rightarrow> True | Resolves r \<Rightarrow> \<not> resp_ok r)"



text \<open>Example settings, servers and responses used below.\<close>

definition default_settings :: api_settings where
  "default_settings = \<lparr> baseUrl = js ''https://www.vivaapi.cn'', apiKey = js ''sk-test'' \<rparr>"

definition failing_fetch :: "http_request \<Rightarrow> fetch_result" where
  "failing_fetch req =
     Resolves \<lparr> resp_status = 500, resp_text = [],
                resp_json = Inl (Exn (js ''SyntaxError'') (js ''Unexpected end of JSON input'')) \<rparr>"


text \<open>
  The fields every submission carries (lines 137--146), the names of the fields of a
  form, and an example: a request whose image is a data URL with a payload that is not
  base64, a decoder that accepts one payload only, and a server that accepts the job.
\<close>

definition standard_fields :: "create_video_request \<Rightarrow> (jstring \<times> form_value) list" where
  "standard_fields request =
     [(js ''model'', FormText (cv_model request)),
      (js ''prompt'', FormText (cv_prompt request)),
      (js ''seconds'', FormText (num_to_string (cv_duration request))),
      (js ''size'',
       FormText (if cv_orientation request = Landscape then js ''16x9'' else js ''9x16'')),
      (js ''watermark'', FormText (js ''false''))]"





section \<open>The task list and the polling loop of the gallery\<close>

text \<open>
  \<open>interface VideoTask\<close> of \<open>types.ts\<close>.  The status is one of the four literals; the
  fields the polling loop fills from the reply hold whatever value the reply carries
  (\<open>None\<close> is \<open>undefined\<close>).  \<open>handleUpdateTask\<close> is the store update of \<open>App.tsx\<close>
  (lines 113--115).

  \<open>poll_merge\<close> is the body of the \<open>try\<close> block after the query has returned \<open>res\<close>
  (lines 1131--1164): \<open>Inl\<close> when reading \<open>res.status\<close> throws, \<open>Inr None\<close> when
  nothing differs, \<open>Inr (Some t)\<close> when \<open>onUpdateTask(t)\<close> is called; \<open>now\<close> is the
  reading of \<open>Date.now()\<close>.  \<open>poll_body\<close> is the whole \<open>try\<close> block, \<open>poll_iteration\<close>
  adds the \<open>catch\<close>, \<open>poll_loop\<close> is the \<open>for\<close> loop over the tasks captured when the
  effect ran, with the store threaded through; the outcome of the \<open>k\<close>-th query of a
  tick is \<open>net k\<close> and the clock reads \<open>clock k\<close> then.  \<open>poll_tick\<close> is one run of
  the interval callback on the current task list, from its first iteration to its last
  with no other run in between.  \<open>poll_ticks\<close> is \<open>n\<close> such runs one after the other,
  starting with tick \<open>j\<close>, each on the list the previous one left (ticks that do not
  overlap); it records the task list before each tick and the effects of the tick.

  The callback is asynchronous and the timer does not wait for it: while a run awaits a
  reply, the timer may start another run on the same captured tasks, and a run goes on
  with the tasks it captured after the list has changed.  \<open>poll_runs\<close> is this general
  case: \<open>runs\<close> holds, for each run in flight, the captured tasks it has not reached
  yet, and the schedule names, step by step, the run that makes its next iteration on
  the shared list.  An iteration is taken at the moment its reply arrives (between its
  request and its reply it reads nothing of the list); the \<open>k\<close>-th iteration of the
  schedule is answered by \<open>net k\<close> at the clock reading \<open>clock k\<close>.
\<close>

datatype task_status = Pending | Processing | Completed | Failed

record video_task =
  task_id :: jstring
  status :: task_status
  task_prompt :: jstring
  task_model :: jstring
  task_orientation :: "orientation option"
  createdAt :: int
  completedAt :: jsval
  videoUrl :: jsval
  thumbnailUrl :: jsval
  progress :: jsval
  failureReason :: jsval

definition handleUpdateTask :: "video_task \<Rightarrow> video_task list \<Rightarrow> video_task list" where
  "handleUpdateTask updatedTask prev =
     map (\<lambda>t. if task_id t = task_id updatedTask then updatedTask else t) prev"

definition poll_merge :: "video_task \<Rightarrow> json \<Rightarrow> int \<Rightarrow> exn + video_task option" where
  "poll_merge task res now =
     (case read_prop res (js ''status'') of
        Inl e \<Rightarrow> Inl e
      | Inr res_status \<Rightarrow>
          let detail = lookup_prop res (js ''detail'');
              resStatus = or_else res_status (opt_prop detail (js ''status''));
              resFailureReason = opt_prop detail (js ''failure_reason'');
              resProgress = opt_prop detail (js ''progress_pct'');
              resVideoUrl = or_else (lookup_prop res (js ''video_url''))
                              (opt_prop detail (js ''video_url''));
              resThumbnailUrl = opt_prop detail (js ''thumbnail_url'');
              updatedStatus =
                (if resStatus = Some (JStr (js ''completed'')) then Completed
                 else if resStatus = Some (JStr (js ''failed'')) then Failed
                 else if resStatus = Some (JStr (js ''processing'')) then Processing
                 else status task)
          in Inr (if updatedStatus \<noteq> status task
                     \<or> strict_neq resVideoUrl (videoUrl task)
                     \<or> strict_neq resProgress (progress task)
                  then Some (task\<lparr> status := updatedStatus,
                                   videoUrl := or_else resVideoUrl None,
                                   thumbnailUrl := or_else resThumbnailUrl None,
                                   progress := resProgress,
                                   failureReason := resFailureReason,
                                   completedAt :=
                                     (if (updatedStatus = Completed \<or> updatedStatus = Failed)
                                         \<and> \<not> truthy (completedAt task)
                                      then or_else (lookup_prop res (js ''status_update_time''))
                                             (Some (JNum now))
                                      else completedAt task) \<rparr>)
                  else None))"

definition poll_body ::
  "(http_request \<Rightarrow> fetch_result) \<Rightarrow> int \<Rightarrow> api_settings \<Rightarrow> video_task \<Rightarrow> video_task list
   \<Rightarrow> (video_task list) io"
where
  "poll_body fetch now settings task store =
     (case queryVideoTask fetch (task_id task) settings of
        (e0, Inl err) \<Rightarrow> (e0, Inl err)
      | (e0, Inr res) \<Rightarrow>
          (case poll_merge task res now of
             Inl err \<Rightarrow> (e0, Inl err)
           | Inr None \<Rightarrow> (e0, Inr store)
           | Inr (Some updated) \<Rightarrow> (e0, Inr (handleUpdateTask updated store))))"

definition poll_iteration ::
  "(http_request \<Rightarrow> fetch_result) \<Rightarrow> int \<Rightarrow> api_settings \<Rightarrow> video_task \<Rightarrow> video_task list
   \<Rightarrow> (video_task list) io"
where
  "poll_iteration fetch now settings task store =
     (case poll_body fetch now settings task store of
        (e0, Inr store') \<Rightarrow> (e0, Inr store')
      | (e0, Inl e) \<Rightarrow>
          (e0 @ [Console (js ''Failed to poll task '' @ task_id task) (Some e)], Inr store))"

fun poll_loop ::
  "(nat \<Rightarrow> http_request \<Rightarrow> fetch_result) \<Rightarrow> (nat \<Rightarrow> int) \<Rightarrow> api_settings \<Rightarrow> nat
   \<Rightarrow> video_task list \<Rightarrow> video_task list \<Rightarrow> (video_task list) io"
where
  "poll_loop net clock settings k [] store = ([], Inr store)"
| "poll_loop net clock settings k (task # rest) store =
     (case poll_iteration (net k) (clock k) settings task store of
        (e0, Inl e) \<Rightarrow> (e0, Inl e)
      | (e0, Inr store') \<Rightarrow>
          (case poll_loop net clock settings (Suc k) rest store' of
             (e1, r) \<Rightarrow> (e0 @ e1, r)))"

definition pendingTasks :: "video_task list \<Rightarrow> video_task list" where
  "pendingTasks tasks = filter (\<lambda>t. status t = Pending \<or> status t = Processing) tasks"

definition poll_tick ::
  "(nat \<Rightarrow> http_request \<Rightarrow> fetch_result) \<Rightarrow> (nat \<Rightarrow> int) \<Rightarrow> api_settings
   \<Rightarrow> video_task list \<Rightarrow> (video_task list) io"
where
  "poll_tick net clock settings tasks = poll_loop net clock settings 0 (pendingTasks tasks) tasks"

fun poll_ticks ::
  "(nat \<Rightarrow> nat \<Rightarrow> http_request \<Rightarrow> fetch_result) \<Rightarrow> (nat \<Rightarrow> nat \<Rightarrow> int) \<Rightarrow> api_settings
   \<Rightarrow> nat \<Rightarrow> nat \<Rightarrow> video_task list
   \<Rightarrow> (video_task list \<times> effect list) list \<times> (exn + video_task list)"
where
  "poll_ticks net clock settings j 0 tasks = ([], Inr tasks)"
| "poll_ticks net clock settings j (Suc n) tasks =
     (case poll_tick (net j) (clock j) settings tasks of
        (e0, Inl e) \<Rightarrow> ([(tasks, e0)], Inl e)
      | (e0, Inr tasks') \<Rightarrow>
          (case poll_ticks net clock settings (Suc j) n tasks' of
             (history, r) \<Rightarrow> ((tasks, e0) # history, r)))"

fun poll_runs ::
  "(nat \<Rightarrow> http_request \<Rightarrow> fetch_result) \<Rightarrow> (nat \<Rightarrow> int) \<Rightarrow> api_settings \<Rightarrow> nat
   \<Rightarrow> nat list \<Rightarrow> video_task list list \<Rightarrow> video_task list \<Rightarrow> (video_task list) io"
where
  "poll_runs net clock settings k [] runs store = ([], Inr store)"
| "poll_runs net clock settings k (r # schedule) runs store =
     (if r < length runs then
        (case runs ! r of
           [] \<Rightarrow> poll_runs net clock settings k schedule runs store
         | task # rest \<Rightarrow>
             (case poll_iteration (net k) (clock k) settings task store of
                (e0, Inl e) \<Rightarrow> (e0, Inl e)
              | (e0, Inr store') \<Rightarrow>
                  (case poll_runs net clock settings (Suc k) schedule (runs[r := rest]) store' of
                     (e1, res) \<Rightarrow> (e0 @ e1, res))))
      else poll_runs net clock settings k schedule runs store)"

text \<open>The requests handed to \<open>fetch\<close> among a list of effects, in order.\<close>

fun fetches :: "effect list \<Rightarrow> http_request list" where
  "fetches [] = []"
| "fetches (Fetch r # es) = r # fetches es"
| "fetches (Console m e # es) = fetches es"

text \<open>
  The record of a task after the merge of a reply (the record handed to \<open>onUpdateTask\<close>,
  or the task itself when the merge throws or finds nothing to update), and the
  parts of a reply the merge looks at, in the words of the specification: the status of
  the reply (flat or nested), whether that status is terminal, and the completion stamp
  it yields.
\<close>

definition apply_merge :: "video_task \<Rightarrow> json \<times> int \<Rightarrow> video_task" where
  "apply_merge task r =
     (case poll_merge task (fst r) (snd r) of Inr (Some updated) \<Rightarrow> updated | _ \<Rightarrow> task)"

definition response_status :: "json \<Rightarrow> jsval" where
  "response_status res =
     or_else (lookup_prop res (js ''status''))
       (opt_prop (lookup_prop res (js ''detail'')) (js ''status''))"

definition merged_status :: "video_task \<Rightarrow> json \<Rightarrow> task_status" where
  "merged_status task res =
     (if response_status res = Some (JStr (js ''completed'')) then Completed
      else if response_status res = Some (JStr (js ''failed'')) then Failed
      else if response_status res = Some (JStr (js ''processing'')) then Processing
      else status task)"

definition terminal_reply :: "json \<times> int \<Rightarrow> bool" where
  "terminal_reply r \<longleftrightarrow>
     response_status (fst r) = Some (JStr (js ''completed''))
     \<or> response_status (fst r) = Some (JStr (js ''failed''))"

definition completion_stamp :: "json \<times> int \<Rightarrow> jsval" where
  "completion_stamp r =
     or_else (lookup_prop (fst r) (js ''status_update_time'')) (Some (JNum (snd r)))"

text \<open>
  What a tick that no other run overlaps does to the task list, in the words of the
  specification: every task that is \<open>pending\<close> or \<open>processing\<close> is queried, in list
  order, and its record is replaced by the merge of the reply into it; the record stays
  as it is when the query or the merge throws, and the records of the other tasks are
  not touched.  \<open>query_index tasks p\<close> is the number of the query that a tick on
  \<open>tasks\<close> makes for the task at position \<open>p\<close>.
\<close>

definition poll_outcome ::
  "(http_request \<Rightarrow> fetch_result) \<Rightarrow> int \<Rightarrow> api_settings \<Rightarrow> video_task \<Rightarrow> video_task"
where
  "poll_outcome fetch now settings task =
     (case snd (queryVideoTask fetch (task_id task) settings) of
        Inl e \<Rightarrow> task
      | Inr res \<Rightarrow> apply_merge task (res, now))"

fun tick_spec ::
  "(nat \<Rightarrow> http_request \<Rightarrow> fetch_result) \<Rightarrow> (nat \<Rightarrow> int) \<Rightarrow> api_settings \<Rightarrow> nat
   \<Rightarrow> video_task list \<Rightarrow> video_task list"
where
  "tick_spec net clock settings k [] = []"
| "tick_spec net clock settings k (t # ts) =
     (if status t = Pending \<or> status t = Processing
      then poll_outcome (net k) (clock k) settings t # tick_spec net clock settings (Suc k) ts
      else t # tick_spec net clock settings k ts)"

definition query_index :: "video_task list \<Rightarrow> nat \<Rightarrow> nat" where
  "query_index tasks p = length (pendingTasks (take p tasks))"

text \<open>Example tasks, replies and servers used below.\<close>

definition pending_task :: video_task where
  "pending_task =
     \<lparr> task_id = js ''video_123'', status = Pending, task_prompt = js ''a cat'',
       task_model = js ''sora-2'', task_orientation = Some Portrait,
       createdAt = 1700000000000, completedAt = None, videoUrl = None, thumbnailUrl = None,
       progress = None, failureReason = None \<rparr>"

definition processing_task :: video_task where
  "processing_task = pending_task\<lparr> status := Processing \<rparr>"

definition offline_fetch :: "http_request \<Rightarrow> fetch_result" where
  "offline_fetch req = Rejects (Exn (js ''TypeError'') (js ''Failed to fetch''))"

definition processing_reply :: json where
  "processing_reply = JObj [(js ''status'', JStr (js ''processing''))]"

definition completed_reply :: json where
  "completed_reply =
     JObj [(js ''status'', JStr (js ''completed'')),
           (js ''video_url'', JStr (js ''https://x/y.mp4'')),
           (js ''status_update_time'', JNum 1700000090)]"

definition zero_stamp_reply :: json where
  "zero_stamp_reply =
     JObj [(js ''status'', JStr (js ''completed'')), (js ''status_update_time'', JNum 0)]"

definition unstamped_reply :: json where
  "unstamped_reply = JObj [(js ''status'', JStr (js ''completed''))]"

text \<open>
  A list of two tasks in progress, and two servers on which the first of them is still
  being processed and the second is completed: \<open>server_fetch\<close> answers without a
  \<open>status_update_time\<close>, \<open>stamping_fetch\<close> with one; the second task as the record a
  tick stores from either answer; a server that answers with a
  \<open>status_update_time\<close> of 0; a clock that advances by two seconds from one reply to the
  next.
\<close>

definition second_task :: video_task where
  "second_task = pending_task\<lparr> task_id := js ''video_456'' \<rparr>"

definition finished_task :: video_task where
  "finished_task =
     second_task\<lparr> status := Completed, completedAt := Some (JNum 1700000006000) \<rparr>"

definition overlap_tasks :: "video_task list" where
  "overlap_tasks = [processing_task, second_task]"

definition server_fetch :: "http_request \<Rightarrow> fetch_result" where
  \<open>server_fetch req =
     (if req_url req = js ''https://www.vivaapi.cn/v1/videos/video_456''
      then Resolves \<lparr> resp_status = 200, resp_text = js ''{"status":"completed"}'',
                      resp_json = Inr unstamped_reply \<rparr>
      else Resolves \<lparr> resp_status = 200, resp_text = js ''{"status":"processing"}'',
                      resp_json = Inr processing_reply \<rparr>)\<close>

definition stamping_fetch :: "http_request \<Rightarrow> fetch_result" where
  \<open>stamping_fetch req =
     (if req_url req = js ''https://www.vivaapi.cn/v1/videos/video_456''
      then Resolves \<lparr> resp_status = 200,
                      resp_text = js ''{"status":"completed","video_url":"https://x/y.mp4","status_update_time":1700000090}'',
                      resp_json = Inr completed_reply \<rparr>
      else Resolves \<lparr> resp_status = 200, resp_text = js ''{"status":"processing"}'',
                      resp_json = Inr processing_reply \<rparr>)\<close>

definition stamped_task :: video_task where
  "stamped_task =
     second_task\<lparr> status := Completed, videoUrl := Some (JStr (js ''https://x/y.mp4'')),
                   completedAt := Some (JNum 1700000090) \<rparr>"

definition zero_stamp_fetch :: "http_request \<Rightarrow> fetch_result" where
  \<open>zero_stamp_fetch req =
     Resolves \<lparr> resp_status = 200,
                resp_text = js ''{"status":"completed","status_update_time":0}'',
                resp_json = Inr zero_stamp_reply \<rparr>\<close>

definition overlap_clock :: "nat \<Rightarrow> int" where
  "overlap_clock k = 1700000004000 + 2000 * int k"

section \<open>Reconciliation on a change of the target duration\<close>

lemma clamp_loop_positive:
  "x \<in> set (clamp_loop target acc segs) \<Longrightarrow> 0 < duration x"
  by (induction target acc segs rule: clamp_loop.induct) (auto simp: Let_def split: if_splits)

lemma clamp_loop_bound:
  "acc \<le> target \<Longrightarrow> acc + sum_list (map duration (clamp_loop target acc segs)) \<le> target"
  by (induction target acc segs rule: clamp_loop.induct) (auto simp: Let_def)

lemma replay_spec_full: "target \<le> acc \<Longrightarrow> replay_spec target acc segs = []"
  by (cases segs) auto

lemma clamp_loop_replay:
  "clamp_loop target acc segs = replay_spec target acc (filter (\<lambda>x. 0 < duration x) segs)"
proof (induction target acc segs rule: clamp_loop.induct)
  case (1 target acc)
  show ?case by simp
next
  case (2 target acc seg rest)
  show ?case
  proof (cases "acc \<ge> target")
    case True
    then show ?thesis by (cases "filter (\<lambda>x. 0 < duration x) rest") auto
  next
    case False
    then show ?thesis using 2 by (auto simp: Let_def replay_spec_full)
  qed
qed

lemma clampSegments_sum: "sum_list (map duration (clampSegments now target segs)) \<le> target"
proof (cases "0 \<le> target")
  case True
  then show ?thesis
    using clamp_loop_bound [of 0 target segs] by (simp add: clampSegments_def Let_def)
next
  case False
  then have "clamp_loop target 0 segs = []" by (cases segs) auto
  then show ?thesis by (simp add: clampSegments_def)
qed

lemma clampSegments_nonempty: "clampSegments now target segs \<noteq> []"
  by (simp add: clampSegments_def Let_def)

lemma clampSegments_spec:
  "clampSegments now target segs
   = reconcile_spec now target (filter (\<lambda>x. 0 < duration x) segs)"
  by (simp add: clampSegments_def reconcile_spec_def clamp_loop_replay Let_def
      split: list.splits)

lemma filter_positive_id:
  "\<forall>x \<in> set segs. 0 < duration x \<Longrightarrow> filter (\<lambda>x. 0 < duration x) segs = segs"
  by (induction segs) auto

lemma clampSegments_example:
  "clampSegments now 10
     [\<lparr>seg_id = a, duration = 5, description = da\<rparr>,
      \<lparr>seg_id = b, duration = 5, description = db\<rparr>,
      \<lparr>seg_id = c, duration = 5, description = dc\<rparr>]
   = [\<lparr>seg_id = a, duration = 5, description = da\<rparr>,
      \<lparr>seg_id = b, duration = 5, description = db\<rparr>]"
  by (simp add: clampSegments_def Let_def)

lemma durationEffect_spec:
  "durationEffect now s =
     (if isStoryboardMode s
      then s\<lparr> storyboardSegments :=
               reconcile_spec now (videoDuration s)
                 (filter (\<lambda>x. 0 < duration x) (storyboardSegments s)) \<rparr>
      else s)"
  by (simp add: durationEffect_def clampSegments_spec)

lemma select_duration_spec:
  "isStoryboardMode s \<Longrightarrow> d \<noteq> videoDuration s \<Longrightarrow>
   step (SelectDuration d now) s =
     s\<lparr> videoDuration := d,
        storyboardSegments :=
          reconcile_spec now d (filter (\<lambda>x. 0 < duration x) (storyboardSegments s)) \<rparr>"
  by (simp add: durationEffect_def clampSegments_spec)

lemma select_duration_example:
  "storyboardSegments
     (step (SelectDuration 10 now)
        \<lparr> isStoryboardMode = True, storyboardView = v,
          storyboardSegments =
            [\<lparr>seg_id = a, duration = 5, description = da\<rparr>,
             \<lparr>seg_id = b, duration = 5, description = db\<rparr>,
             \<lparr>seg_id = c, duration = 5, description = dc\<rparr>],
          previewPrompt = p, videoDuration = 15, panelError = e \<rparr>)
   = [\<lparr>seg_id = a, duration = 5, description = da\<rparr>,
      \<lparr>seg_id = b, duration = 5, description = db\<rparr>]"
  by (simp add: durationEffect_def clampSegments_def Let_def)

text \<open>
  Claim C4, as stated, on a storyboard reached from the initial state: three described
  segments of 5, 0 and 5 seconds under the target 15.  When the target changes to 10,
  the replay the claim describes keeps all three segments (the cumulative total reaches
  the target only with the last one, and nothing is pushed past it), but the source
  pushes a segment only if its duration is positive (\<open>if (segDuration > 0)\<close>) and so
  loses the second segment and its description.
\<close>

theorem C4_zero_duration_counterexample:
  "isStoryboardMode (run zero_duration_events initial_panel)
   \<and> videoDuration (run zero_duration_events initial_panel) = 15
   \<and> storyboardSegments (run zero_duration_events initial_panel)
      = [\<lparr> seg_id = js ''1'', duration = 5, description = js ''A'' \<rparr>,
         \<lparr> seg_id = js ''k3x9q2a'', duration = 0, description = js ''B'' \<rparr>,
         \<lparr> seg_id = js ''m7p1z0c'', duration = 5, description = js ''C'' \<rparr>]
   \<and> reconcile_spec 1700000002000 10
        (storyboardSegments (run zero_duration_events initial_panel))
      = [\<lparr> seg_id = js ''1'', duration = 5, description = js ''A'' \<rparr>,
         \<lparr> seg_id = js ''k3x9q2a'', duration = 0, description = js ''B'' \<rparr>,
         \<lparr> seg_id = js ''m7p1z0c'', duration = 5, description = js ''C'' \<rparr>]
   \<and> storyboardSegments
        (step (SelectDuration 10 1700000002000) (run zero_duration_events initial_panel))
      = [\<lparr> seg_id = js ''1'', duration = 5, description = js ''A'' \<rparr>,
         \<lparr> seg_id = js ''m7p1z0c'', duration = 5, description = js ''C'' \<rparr>]"
  by (simp add: zero_duration_events_def initial_panel_def updateSegment_def addSegment_def
      totalSegmentDuration_def otherSegmentsTotal_def parseInt_def is_space_def
      digit_value_def Let_def durationEffect_def clampSegments_def reconcile_spec_def)

text \<open>
  Claim C4, amended.  For every segment list and every new target duration, the
  reconciliation that the effect runs in storyboard mode when the target duration
  changes replays the segments of positive duration in order (a segment whose duration
  is not positive is skipped), truncates the segment that would push the cumulative
  total past the new target, drops all segments after the cumulative total has reached
  the new target, and synthesizes one segment spanning the full new target if no
  segments remain; on a list of segments of positive duration this is the replay of the
  whole list.  The result always has a duration sum of at most the new target and at
  least one segment.  Segments of 5/5/5 under a target change from 15 to 10 become
  exactly 5/5.  Outside storyboard mode the effect changes nothing.
\<close>

theorem C4_duration_change_reconciliation:
  "durationEffect now s =
     (if isStoryboardMode s
      then s\<lparr> storyboardSegments :=
               reconcile_spec now (videoDuration s)
                 (filter (\<lambda>x. 0 < duration x) (storyboardSegments s)) \<rparr>
      else s)
   \<and> (isStoryboardMode s \<and> d \<noteq> videoDuration s \<longrightarrow>
        step (SelectDuration d now) s =
          s\<lparr> videoDuration := d,
             storyboardSegments :=
               reconcile_spec now d (filter (\<lambda>x. 0 < duration x) (storyboardSegments s)) \<rparr>
        \<and> sum_list (map duration (storyboardSegments (step (SelectDuration d now) s))) \<le> d
        \<and> storyboardSegments (step (SelectDuration d now) s) \<noteq> []
        \<and> ((\<forall>x \<in> set (storyboardSegments s). 0 < duration x) \<longrightarrow>
             storyboardSegments (step (SelectDuration d now) s)
             = reconcile_spec now d (storyboardSegments s)))
   \<and> clampSegments now target segs
       = reconcile_spec now target (filter (\<lambda>x. 0 < duration x) segs)
   \<and> sum_list (map duration (clampSegments now target segs)) \<le> target
   \<and> clampSegments now target segs \<noteq> []
   \<and> storyboardSegments
        (step (SelectDuration 10 now)
           \<lparr> isStoryboardMode = True, storyboardView = v,
             storyboardSegments =
               [\<lparr>seg_id = a, duration = 5, description = da\<rparr>,
                \<lparr>seg_id = b, duration = 5, description = db\<rparr>,
                \<lparr>seg_id = c, duration = 5, description = dc\<rparr>],
             previewPrompt = p, videoDuration = 15, panelError = e \<rparr>)
      = [\<lparr>seg_id = a, duration = 5, description = da\<rparr>,
         \<lparr>seg_id = b, duration = 5, description = db\<rparr>]"
proof -
  have sel: "isStoryboardMode s \<and> d \<noteq> videoDuration s \<longrightarrow>
        step (SelectDuration d now) s =
          s\<lparr> videoDuration := d,
             storyboardSegments :=
               reconcile_spec now d (filter (\<lambda>x. 0 < duration x) (storyboardSegments s)) \<rparr>
        \<and> sum_list (map duration (storyboardSegments (step (SelectDuration d now) s))) \<le> d
        \<and> storyboardSegments (step (SelectDuration d now) s) \<noteq> []
        \<and> ((\<forall>x \<in> set (storyboardSegments s). 0 < duration x) \<longrightarrow>
             storyboardSegments (step (SelectDuration d now) s)
             = reconcile_spec now d (storyboardSegments s))"
  proof (intro impI)
    assume h: "isStoryboardMode s \<and> d \<noteq> videoDuration s"
    then have st: "step (SelectDuration d now) s =
          s\<lparr> videoDuration := d,
             storyboardSegments :=
               reconcile_spec now d (filter (\<lambda>x. 0 < duration x) (storyboardSegments s)) \<rparr>"
      using select_duration_spec [of s d now] by blast
    have segs: "storyboardSegments (step (SelectDuration d now) s)
                = clampSegments now d (storyboardSegments s)"
      unfolding st by (simp add: clampSegments_spec)
    have pos: "(\<forall>x \<in> set (storyboardSegments s). 0 < duration x) \<longrightarrow>
             storyboardSegments (step (SelectDuration d now) s)
             = reconcile_spec now d (storyboardSegments s)"
      unfolding segs using clampSegments_spec [of now d "storyboardSegments s"]
      by (simp add: filter_positive_id)
    show "step (SelectDuration d now) s =
          s\<lparr> videoDuration := d,
             storyboardSegments :=
               reconcile_spec now d (filter (\<lambda>x. 0 < duration x) (storyboardSegments s)) \<rparr>
        \<and> sum_list (map duration (storyboardSegments (step (SelectDuration d now) s))) \<le> d
        \<and> storyboardSegments (step (SelectDuration d now) s) \<noteq> []
        \<and> ((\<forall>x \<in> set (storyboardSegments s). 0 < duration x) \<longrightarrow>
             storyboardSegments (step (SelectDuration d now) s)
             = reconcile_spec now d (storyboardSegments s))"
      using st pos clampSegments_sum [of now d "storyboardSegments s"]
        clampSegments_nonempty [of now d "storyboardSegments s"]
      unfolding segs by blast
  qed
  show ?thesis
    using sel durationEffect_spec [of now s] clampSegments_spec [of now target segs]
      clampSegments_sum [of now target segs] clampSegments_nonempty [of now target segs]
      select_duration_example [of now v a da b db c dc p e]
    by blast
qed

text \<open>
  The theorem on segments of 4, 0, 8 and 3 seconds when the target changes from 15 to
  10: the segment of no duration is skipped, the third segment is truncated to 6 and the
  fourth is dropped.
\<close>

theorem C4_duration_change_reconciliation_witness:
  "isStoryboardMode four_scene_panel
   \<and> 10 \<noteq> videoDuration four_scene_panel
   \<and> videoDuration (step (SelectDuration 10 1700000000000) four_scene_panel) = 10
   \<and> storyboardSegments (step (SelectDuration 10 1700000000000) four_scene_panel)
      = [\<lparr> seg_id = js ''1'', duration = 4, description = js ''A'' \<rparr>,
         \<lparr> seg_id = js ''3'', duration = 6, description = js ''C'' \<rparr>]"
proof -
  have m: "isStoryboardMode four_scene_panel" and d: "10 \<noteq> videoDuration four_scene_panel"
    by (simp_all add: four_scene_panel_def)
  have r: "reconcile_spec 1700000000000 10
             (filter (\<lambda>x. 0 < duration x) (storyboardSegments four_scene_panel))
           = [\<lparr> seg_id = js ''1'', duration = 4, description = js ''A'' \<rparr>,
              \<lparr> seg_id = js ''3'', duration = 6, description = js ''C'' \<rparr>]"
    by (simp add: four_scene_panel_def reconcile_spec_def)
  have "step (SelectDuration 10 1700000000000) four_scene_panel =
          four_scene_panel\<lparr> videoDuration := 10,
             storyboardSegments :=
               reconcile_spec 1700000000000 10
                 (filter (\<lambda>x. 0 < duration x) (storyboardSegments four_scene_panel)) \<rparr>"
    using C4_duration_change_reconciliation [of 1700000000000 four_scene_panel 10] m d
    by blast
  then show ?thesis using m d r by simp
qed

section \<open>From the edit view to the preview\<close>

lemma foldl_plus_sum_list:
  "foldl (\<lambda>sum x. sum + f x) acc xs = acc + sum_list (map f xs)" for acc :: int
  by (induction xs arbitrary: acc) auto

lemma totalSegmentDuration_sum:
  "totalSegmentDuration s = sum_list (map duration (storyboardSegments s))"
proof -
  have "(\<lambda>sum seg. sum + (if duration seg = 0 then 0 else duration seg))
        = (\<lambda>sum seg. sum + duration seg)"
    by (intro ext) simp
  then show ?thesis
    by (simp add: totalSegmentDuration_def foldl_plus_sum_list)
qed

lemma script_parts_nth:
  "script_parts t segs =
     map (\<lambda>i. js ''['' @ num_to_string (t + segment_start segs i) @ js ''s-''
               @ num_to_string (t + segment_start segs (Suc i)) @ js ''s] ''
               @ description (segs ! i)) [0..<length segs]"
proof (induction segs arbitrary: t)
  case Nil
  show ?case by simp
next
  case (Cons seg rest)
  have upt: "[0..<length (seg # rest)] = 0 # map Suc [0..<length rest]"
    by (simp add: upt_conv_Cons map_Suc_upt del: upt_Suc)
  show ?case
    unfolding upt
    by (simp add: Cons.IH Let_def segment_start_def add.assoc comp_def del: upt_Suc)
qed

lemma script_parts_preview:
  "script_parts 0 segs = map (preview_part segs) [0..<length segs]"
  using script_parts_nth [of 0 segs] by (simp add: preview_part_def)

lemma preview_success:
  "preview_ready s \<Longrightarrow>
   handlePreviewAndOptimize s =
     s\<lparr> previewPrompt :=
          join [10, 10]
            (map (preview_part (storyboardSegments s)) [0..<length (storyboardSegments s)]),
        panelError := None, storyboardView := Preview \<rparr>"
  by (auto simp: handlePreviewAndOptimize_def preview_ready_def totalSegmentDuration_sum
      list_ex_iff list_all_iff script_parts_preview)

lemma preview_failure:
  "\<not> preview_ready s \<Longrightarrow> \<exists>m. handlePreviewAndOptimize s = s\<lparr> panelError := Some m \<rparr>"
  by (auto simp: handlePreviewAndOptimize_def preview_ready_def totalSegmentDuration_sum
      list_ex_iff list_all_iff)

lemma segment_start_Suc:
  "i < length segs \<Longrightarrow> segment_start segs (Suc i) = segment_start segs i + duration (segs ! i)"
  by (simp add: segment_start_def take_Suc_conv_app_nth)

lemma preview_example:
  "previewPrompt
     (handlePreviewAndOptimize
        \<lparr> isStoryboardMode = True, storyboardView = Edit,
          storyboardSegments =
            [\<lparr> seg_id = a, duration = 4, description = js ''A'' \<rparr>,
             \<lparr> seg_id = b, duration = 6, description = js ''B'' \<rparr>],
          previewPrompt = p, videoDuration = 10, panelError = e \<rparr>)
   = js ''[0s-4s] A'' @ [10, 10] @ js ''[4s-10s] B''"
  by (simp add: handlePreviewAndOptimize_def totalSegmentDuration_def trim_def is_space_def
      num_to_string_def)

text \<open>
  Claim C5, as stated, at a segment whose description is one space: the durations sum to
  the target and the description is not the empty string, yet the transition is refused
  with the message asking to complete the descriptions, because the source tests
  \<open>!s.description.trim()\<close>.
\<close>

theorem C5_blank_description_counterexample:
  "storyboardView blank_scene_panel = Edit
   \<and> totalSegmentDuration blank_scene_panel = videoDuration blank_scene_panel
   \<and> list_all (\<lambda>x. description x \<noteq> []) (storyboardSegments blank_scene_panel)
   \<and> storyboardView (handlePreviewAndOptimize blank_scene_panel) = Edit
   \<and> panelError (handlePreviewAndOptimize blank_scene_panel) = Some msg_descriptions_missing"
  by (simp add: blank_scene_panel_def handlePreviewAndOptimize_def totalSegmentDuration_def
      trim_def is_space_def)

text \<open>
  Claim C5, amended.  From the edit view, \<open>handlePreviewAndOptimize\<close> reaches the preview
  if and only if the segment durations sum to the target duration and every description
  is non-blank, that is, non-empty after \<open>trim\<close>.  Otherwise it only sets an error
  message: the view and everything else stay as they are.  On success the error is
  cleared and the preview text is the parts \<open>[start s-end s] description\<close> of the
  segments in order, joined by an empty line, where the first start is 0, each end is
  the start plus the duration and is the start of the next part, and the last end is the
  target.  Segments (4, A) and (6, B) under the target 10 give \<open>[0s-4s] A\<close>, an empty
  line, \<open>[4s-10s] B\<close>.
\<close>

theorem C5_preview_transition:
  assumes "storyboardView s = Edit"
  shows
    "(storyboardView (handlePreviewAndOptimize s) = Preview \<longleftrightarrow> preview_ready s)
     \<and> (\<not> preview_ready s \<longrightarrow>
          (\<exists>m. handlePreviewAndOptimize s = s\<lparr> panelError := Some m \<rparr>))
     \<and> (preview_ready s \<longrightarrow>
          handlePreviewAndOptimize s =
            s\<lparr> previewPrompt :=
                 join [10, 10]
                   (map (preview_part (storyboardSegments s))
                      [0..<length (storyboardSegments s)]),
               panelError := None, storyboardView := Preview \<rparr>
          \<and> segment_start (storyboardSegments s) (length (storyboardSegments s))
              = videoDuration s)
     \<and> segment_start (storyboardSegments s) 0 = 0
     \<and> (\<forall>i < length (storyboardSegments s).
          segment_start (storyboardSegments s) (Suc i)
          = segment_start (storyboardSegments s) i + duration (storyboardSegments s ! i))
     \<and> previewPrompt
         (handlePreviewAndOptimize
            \<lparr> isStoryboardMode = True, storyboardView = Edit,
              storyboardSegments =
                [\<lparr> seg_id = a, duration = 4, description = js ''A'' \<rparr>,
                 \<lparr> seg_id = b, duration = 6, description = js ''B'' \<rparr>],
              previewPrompt = p, videoDuration = 10, panelError = e \<rparr>)
       = js ''[0s-4s] A'' @ [10, 10] @ js ''[4s-10s] B''"
proof -
  have iff: "storyboardView (handlePreviewAndOptimize s) = Preview \<longleftrightarrow> preview_ready s"
  proof (cases "preview_ready s")
    case True
    then show ?thesis by (simp add: preview_success)
  next
    case False
    then obtain m where "handlePreviewAndOptimize s = s\<lparr> panelError := Some m \<rparr>"
      using preview_failure by blast
    with False assms show ?thesis by simp
  qed
  have last: "preview_ready s \<longrightarrow>
      segment_start (storyboardSegments s) (length (storyboardSegments s)) = videoDuration s"
    by (simp add: preview_ready_def segment_start_def)
  have first: "segment_start (storyboardSegments s) 0 = 0"
    by (simp add: segment_start_def)
  show ?thesis
    using iff last first preview_failure [of s] preview_success [of s]
      segment_start_Suc [of _ "storyboardSegments s"] preview_example [of a b p e]
    by blast
qed

theorem C5_preview_transition_witness:
  "storyboardView two_scene_panel = Edit
   \<and> preview_ready two_scene_panel
   \<and> storyboardView (handlePreviewAndOptimize two_scene_panel) = Preview
   \<and> previewPrompt (handlePreviewAndOptimize two_scene_panel)
       = js ''[0s-4s] A'' @ [10, 10] @ js ''[4s-10s] B''"
proof -
  have view: "storyboardView two_scene_panel = Edit"
    by (simp add: two_scene_panel_def)
  have ready: "preview_ready two_scene_panel"
    by (simp add: two_scene_panel_def preview_ready_def trim_def is_space_def)
  have parts:
    "join [10, 10]
       (map (preview_part (storyboardSegments two_scene_panel))
          [0..<length (storyboardSegments two_scene_panel)])
     = js ''[0s-4s] A'' @ [10, 10] @ js ''[4s-10s] B''"
    by (simp add: two_scene_panel_def preview_part_def segment_start_def num_to_string_def
        upt_conv_Cons del: upt_Suc)
  show ?thesis
    using C5_preview_transition [OF view] view ready parts by simp
qed

section \<open>The sum of the segment durations under edits and additions\<close>

lemma otherSegmentsTotal_sum:
  "otherSegmentsTotal i s
   = sum_list (map duration (filter (\<lambda>x. seg_id x \<noteq> i) (storyboardSegments s)))"
  by (simp add: otherSegmentsTotal_def foldl_plus_sum_list)

lemma filter_absent_id:
  "i \<notin> set (map seg_id segs) \<Longrightarrow> filter (\<lambda>x. seg_id x \<noteq> i) segs = segs"
  by (induction segs) auto

lemma map_absent_id:
  "i \<notin> set (map seg_id segs) \<Longrightarrow> map (\<lambda>x. if seg_id x = i then f x else x) segs = segs"
  by (induction segs) auto

lemma sum_after_duration_update:
  "distinct (map seg_id segs) \<Longrightarrow> i \<in> set (map seg_id segs) \<Longrightarrow>
   sum_list (map duration (map (\<lambda>x. if seg_id x = i then x\<lparr> duration := v \<rparr> else x) segs))
   = sum_list (map duration (filter (\<lambda>x. seg_id x \<noteq> i) segs)) + v"
proof (induction segs)
  case Nil
  then show ?case by simp
next
  case (Cons x xs)
  show ?case
  proof (cases "seg_id x = i")
    case True
    with Cons.prems have "i \<notin> set (map seg_id xs)" by auto
    then show ?thesis using True by (simp add: filter_absent_id map_absent_id)
  next
    case False
    with Cons show ?thesis by auto
  qed
qed

lemma updateSegment_ids:
  "fld \<noteq> FieldId \<Longrightarrow>
   map seg_id (storyboardSegments (updateSegment i fld v s)) = map seg_id (storyboardSegments s)"
  by (cases fld) (auto simp: updateSegment_def Let_def)

lemma updateSegment_length:
  "length (storyboardSegments (updateSegment i fld v s)) = length (storyboardSegments s)"
  by (cases fld) (auto simp: updateSegment_def Let_def)

lemma updateSegment_target: "videoDuration (updateSegment i fld v s) = videoDuration s"
  by (cases fld) (auto simp: updateSegment_def Let_def)

lemma addSegment_target: "videoDuration (addSegment rnd s) = videoDuration s"
  by (auto simp: addSegment_def Let_def)

lemma edit_duration_total:
  assumes "distinct (map seg_id (storyboardSegments s))"
    and "totalSegmentDuration s \<le> videoDuration s"
  shows "totalSegmentDuration (updateSegment i FieldDuration v s) \<le> videoDuration s"
proof (cases "i \<in> set (map seg_id (storyboardSegments s))")
  case True
  show ?thesis
    using sum_after_duration_update [OF assms(1) True]
    by (simp add: updateSegment_def Let_def totalSegmentDuration_sum otherSegmentsTotal_sum)
next
  case False
  then show ?thesis using assms(2)
    by (simp add: updateSegment_def Let_def totalSegmentDuration_sum map_absent_id)
qed

lemma edit_duration_clamped:
  assumes "x \<in> set (storyboardSegments (updateSegment i FieldDuration v s))" and "seg_id x = i"
  shows "duration x \<le> videoDuration s - otherSegmentsTotal i s"
proof -
  define numVal where
    "numVal = max 0 (case parseInt v of None \<Rightarrow> 0 | Some n \<Rightarrow> if n = 0 then 0 else n)"
  define finalVal where "finalVal = min numVal (videoDuration s - otherSegmentsTotal i s)"
  from assms obtain y where "x = y\<lparr> duration := finalVal \<rparr>"
    by (auto simp: updateSegment_def Let_def finalVal_def numVal_def)
  then have "duration x = finalVal" by simp
  then show ?thesis by (simp add: finalVal_def)
qed

lemma addSegment_rejected:
  "videoDuration s \<le> totalSegmentDuration s \<Longrightarrow>
   addSegment rnd s = s\<lparr> panelError := Some msg_segments_full \<rparr>"
  by (simp add: addSegment_def)

lemma addSegment_accepted:
  "totalSegmentDuration s < videoDuration s \<Longrightarrow>
   addSegment rnd s =
     s\<lparr> storyboardSegments := storyboardSegments s
          @ [\<lparr> seg_id = rnd, duration = min 5 (videoDuration s - totalSegmentDuration s),
               description = [] \<rparr>] \<rparr>"
  by (simp add: addSegment_def Let_def max_def)

lemma addSegment_total:
  "totalSegmentDuration s \<le> videoDuration s \<Longrightarrow>
   totalSegmentDuration (addSegment rnd s) \<le> videoDuration s"
  by (cases "totalSegmentDuration s < videoDuration s")
     (auto simp: addSegment_accepted addSegment_rejected totalSegmentDuration_sum)

lemma addSegment_ids:
  "rnd \<notin> set (map seg_id (storyboardSegments s)) \<Longrightarrow> distinct (map seg_id (storyboardSegments s)) \<Longrightarrow>
   distinct (map seg_id (storyboardSegments (addSegment rnd s)))"
  by (auto simp: addSegment_def Let_def)

lemma edits_additions_total:
  "edits_and_additions es \<Longrightarrow> fresh_ids es s \<Longrightarrow>
   distinct (map seg_id (storyboardSegments s)) \<Longrightarrow>
   totalSegmentDuration s \<le> videoDuration s \<Longrightarrow>
   totalSegmentDuration (run es s) \<le> videoDuration s \<and> videoDuration (run es s) = videoDuration s"
proof (induction es arbitrary: s)
  case Nil
  then show ?case by simp
next
  case (Cons e es)
  show ?case
  proof (cases e)
    case (AddSegment rnd)
    with Cons.prems have "rnd \<notin> set (map seg_id (storyboardSegments s))" by simp
    then have d: "distinct (map seg_id (storyboardSegments (addSegment rnd s)))"
      using Cons.prems(3) by (rule addSegment_ids)
    have t: "totalSegmentDuration (addSegment rnd s) \<le> videoDuration (addSegment rnd s)"
      using Cons.prems(4) by (simp add: addSegment_total addSegment_target)
    show ?thesis
      using Cons.IH [of "addSegment rnd s"] Cons.prems(1,2) d t AddSegment
      by (simp add: addSegment_target)
  next
    case (EditDuration i v)
    have d: "distinct (map seg_id (storyboardSegments (updateSegment i FieldDuration v s)))"
      using Cons.prems(3) by (simp add: updateSegment_ids)
    have t: "totalSegmentDuration (updateSegment i FieldDuration v s)
             \<le> videoDuration (updateSegment i FieldDuration v s)"
      using Cons.prems(3,4) by (simp add: edit_duration_total updateSegment_target)
    show ?thesis
      using Cons.IH [of "updateSegment i FieldDuration v s"] Cons.prems(1,2) d t EditDuration
      by (simp add: updateSegment_target)
  qed (use Cons.prems in auto)
qed

text \<open>
  Claim C3, as stated, on a run of edits and additions from the initial state in which
  two added segments receive the same identifier: the edit of that identifier excludes
  both from \<open>otherSegmentsTotal\<close> and writes the clamped value to both, and the sum of
  the durations, 19, exceeds the target, 10.
\<close>

theorem C3_id_clash_counterexample:
  "totalSegmentDuration initial_panel \<le> videoDuration initial_panel
   \<and> edits_and_additions clash_events
   \<and> videoDuration (run clash_events initial_panel) = 10
   \<and> totalSegmentDuration (run clash_events initial_panel) = 19"
  by (simp add: clash_events_def initial_panel_def updateSegment_def addSegment_def
      totalSegmentDuration_def otherSegmentsTotal_def parseInt_def is_space_def
      digit_value_def Let_def)

text \<open>
  Claim C3, amended.  For every storyboard state whose segment identifiers are pairwise
  distinct and whose segment durations sum to at most the target duration, and for every
  sequence of segment-duration edits and segment additions in which each added segment
  receives an identifier not yet in use, the sum of the segment durations stays at most
  the target duration (which these events do not change).  An edit sets the duration of
  the edited segment to at most the target minus the sum of the durations of the other
  segments; an addition is rejected with an error once the running total has reached the
  target, and otherwise appends a segment of duration \<open>min 5 (target - total)\<close>.
\<close>

theorem C3_duration_sum_bounded:
  assumes "totalSegmentDuration s \<le> videoDuration s"
    and "distinct (map seg_id (storyboardSegments s))"
    and "edits_and_additions es"
    and "fresh_ids es s"
  shows
    "totalSegmentDuration (run es s) \<le> videoDuration s
     \<and> videoDuration (run es s) = videoDuration s
     \<and> (\<forall>x \<in> set (storyboardSegments (updateSegment i FieldDuration v s)).
          seg_id x = i \<longrightarrow> duration x \<le> videoDuration s - otherSegmentsTotal i s)
     \<and> (videoDuration s \<le> totalSegmentDuration s \<longrightarrow>
          addSegment rnd s = s\<lparr> panelError := Some msg_segments_full \<rparr>)
     \<and> (totalSegmentDuration s < videoDuration s \<longrightarrow>
          addSegment rnd s =
            s\<lparr> storyboardSegments := storyboardSegments s
                 @ [\<lparr> seg_id = rnd,
                      duration = min 5 (videoDuration s - totalSegmentDuration s),
                      description = [] \<rparr>] \<rparr>)"
  using edits_additions_total [OF assms(3,4,2,1)] edit_duration_clamped [of _ i v s]
    addSegment_rejected [of s rnd] addSegment_accepted [of s rnd]
  by blast

theorem C3_duration_sum_bounded_witness:
  "totalSegmentDuration initial_panel \<le> videoDuration initial_panel
   \<and> distinct (map seg_id (storyboardSegments initial_panel))
   \<and> edits_and_additions editing_events
   \<and> fresh_ids editing_events initial_panel
   \<and> map duration (storyboardSegments (run editing_events initial_panel)) = [3, 7]
   \<and> totalSegmentDuration (run editing_events initial_panel) \<le> videoDuration initial_panel"
proof -
  have h1: "totalSegmentDuration initial_panel \<le> videoDuration initial_panel"
    by (simp add: initial_panel_def totalSegmentDuration_def)
  have h2: "distinct (map seg_id (storyboardSegments initial_panel))"
    by (simp add: initial_panel_def)
  have h3: "edits_and_additions editing_events"
    by (simp add: editing_events_def)
  have h4: "fresh_ids editing_events initial_panel"
    by (simp add: editing_events_def initial_panel_def updateSegment_def Let_def)
  have h5: "map duration (storyboardSegments (run editing_events initial_panel)) = [3, 7]"
    by (simp add: editing_events_def initial_panel_def updateSegment_def addSegment_def
        totalSegmentDuration_def otherSegmentsTotal_def parseInt_def is_space_def
        digit_value_def Let_def)
  show ?thesis
    using C3_duration_sum_bounded [OF h1 h2 h3 h4] h1 h2 h3 h4 h5 by simp
qed

section \<open>The storyboard is never empty\<close>

lemma clamp_loop_ids_subset:
  "seg_id x \<in> set (map seg_id (clamp_loop target acc segs)) \<Longrightarrow> seg_id x \<in> set (map seg_id segs)"
  by (induction target acc segs rule: clamp_loop.induct)
     (auto simp: Let_def split: if_splits)

lemma clamp_loop_ids:
  "distinct (map seg_id segs) \<Longrightarrow> distinct (map seg_id (clamp_loop target acc segs))"
proof (induction target acc segs rule: clamp_loop.induct)
  case (1 target acc)
  show ?case by simp
next
  case (2 target acc seg rest)
  have absent: "seg_id seg \<notin> set (map seg_id (clamp_loop target a rest))" for a
    using "2.prems" clamp_loop_ids_subset [of seg target a rest] by auto
  show ?case
    using 2 absent by (auto simp: Let_def)
qed

lemma clampSegments_ids:
  "distinct (map seg_id segs) \<Longrightarrow> distinct (map seg_id (clampSegments now target segs))"
  by (simp add: clampSegments_def Let_def clamp_loop_ids)

lemma durationEffect_distinct:
  "distinct (map seg_id (storyboardSegments s)) \<Longrightarrow>
   distinct (map seg_id (storyboardSegments (durationEffect now s)))"
  by (simp add: durationEffect_def clampSegments_ids)

lemma durationEffect_nonempty:
  "storyboardSegments s \<noteq> [] \<Longrightarrow> storyboardSegments (durationEffect now s) \<noteq> []"
  by (simp add: durationEffect_def clampSegments_nonempty)

lemma filter_one_id:
  "distinct (map seg_id segs) \<Longrightarrow>
   length segs \<le> Suc (length (filter (\<lambda>x. seg_id x \<noteq> i) segs))"
proof (induction segs)
  case Nil
  then show ?case by simp
next
  case (Cons x xs)
  show ?case
  proof (cases "seg_id x = i")
    case True
    with Cons.prems have "i \<notin> set (map seg_id xs)" by auto
    then show ?thesis using True by (simp add: filter_absent_id)
  next
    case False
    with Cons show ?thesis by auto
  qed
qed

lemma removeSegment_inv:
  assumes "distinct (map seg_id (storyboardSegments s))" and "storyboardSegments s \<noteq> []"
  shows "distinct (map seg_id (storyboardSegments (removeSegment i s)))
         \<and> storyboardSegments (removeSegment i s) \<noteq> []"
proof (cases "length (storyboardSegments s) > 1")
  case True
  with filter_one_id [OF assms(1), of i]
  have "length (filter (\<lambda>x. seg_id x \<noteq> i) (storyboardSegments s)) \<noteq> 0" by linarith
  then have "filter (\<lambda>x. seg_id x \<noteq> i) (storyboardSegments s) \<noteq> []" by simp
  then show ?thesis using True assms(1) by (simp add: removeSegment_def distinct_map_filter)
next
  case False
  then show ?thesis using assms by (simp add: removeSegment_def)
qed

lemma removeSegment_last: "length (storyboardSegments s) = 1 \<Longrightarrow> removeSegment i s = s"
  by (simp add: removeSegment_def)

lemma addSegment_length:
  "length (storyboardSegments s) \<le> length (storyboardSegments (addSegment rnd s))"
  by (simp add: addSegment_def Let_def)

lemma map2_description_ids:
  "length ns = length xs \<Longrightarrow>
   map seg_id (map (\<lambda>(seg, idx). seg\<lparr> description := f seg idx \<rparr>) (zip xs ns)) = map seg_id xs"
  by (induction xs arbitrary: ns) (auto simp: length_Suc_conv)

lemma applyOptimizedParts_ids:
  "map seg_id (storyboardSegments (applyOptimizedParts parts s)) = map seg_id (storyboardSegments s)"
  unfolding applyOptimizedParts_def
  using map2_description_ids [of "[0..<length (storyboardSegments s)]" "storyboardSegments s"]
  by simp

lemma step_inv:
  assumes "distinct (map seg_id (storyboardSegments s))" and "storyboardSegments s \<noteq> []"
    and "fresh_ids [e] s"
  shows "distinct (map seg_id (storyboardSegments (step e s)))
         \<and> storyboardSegments (step e s) \<noteq> []"
proof (cases e)
  case (ToggleStoryboardMode now)
  then show ?thesis using assms(1,2)
    by (simp add: Let_def durationEffect_distinct durationEffect_nonempty)
next
  case (SelectDuration d now)
  then show ?thesis using assms(1,2)
    by (simp add: durationEffect_distinct durationEffect_nonempty)
next
  case (AddSegment rnd)
  then show ?thesis using assms addSegment_length [of s rnd]
    by (auto simp: addSegment_ids)
next
  case (RemoveSegment i)
  then show ?thesis using removeSegment_inv [OF assms(1,2)] by simp
next
  case (EditDuration i v)
  then show ?thesis using assms(1,2) updateSegment_length [of i FieldDuration v s]
    by (auto simp: updateSegment_ids)
next
  case (EditDescription i v)
  then show ?thesis using assms(1,2) updateSegment_length [of i FieldDescription v s]
    by (auto simp: updateSegment_ids)
next
  case (ApplyOptimized parts)
  have "length (map seg_id (storyboardSegments (applyOptimizedParts parts s)))
        = length (map seg_id (storyboardSegments s))"
    by (simp only: applyOptimizedParts_ids)
  then have "storyboardSegments (applyOptimizedParts parts s) \<noteq> []"
    using assms(2) by auto
  then show ?thesis using assms(1) ApplyOptimized
    by (simp add: applyOptimizedParts_ids)
next
  case PreviewAndOptimize
  then show ?thesis using assms(1,2) by (auto simp: handlePreviewAndOptimize_def)
next
  case BackToEdit
  then show ?thesis using assms(1,2) by simp
qed

lemma run_inv:
  "distinct (map seg_id (storyboardSegments s)) \<Longrightarrow> storyboardSegments s \<noteq> [] \<Longrightarrow>
   fresh_ids es s \<Longrightarrow>
   distinct (map seg_id (storyboardSegments (run es s))) \<and> storyboardSegments (run es s) \<noteq> []"
proof (induction es arbitrary: s)
  case Nil
  then show ?case by simp
next
  case (Cons e es)
  from Cons.prems have "fresh_ids [e] s" by simp
  with Cons.prems have "distinct (map seg_id (storyboardSegments (step e s)))
         \<and> storyboardSegments (step e s) \<noteq> []" using step_inv by blast
  with Cons.IH [of "step e s"] Cons.prems(3) show ?case by simp
qed

text \<open>
  Claim C9, as stated, on a run from the initial state in which two added segments
  receive the same identifier: with these two segments left, \<open>removeSegment\<close> filters
  both out and the storyboard is empty.
\<close>

theorem C9_id_clash_counterexample:
  "storyboardSegments (run emptying_events initial_panel) = []"
  by (simp add: emptying_events_def initial_panel_def updateSegment_def addSegment_def
      totalSegmentDuration_def otherSegmentsTotal_def parseInt_def is_space_def
      digit_value_def Let_def removeSegment_def durationEffect_def clampSegments_def)

text \<open>
  Claim C9, amended.  The storyboard starts with one segment; \<open>removeSegment\<close> changes
  nothing when exactly one segment remains, \<open>addSegment\<close> never shortens the list,
  \<open>updateSegment\<close> keeps its length, and the reconciliation on a change of the target
  duration never yields an empty list.  Every state reached from the initial state by
  the events of the panel is non-empty, and its segment identifiers are pairwise
  distinct, provided each added segment receives an identifier not yet in use.
\<close>

theorem C9_storyboard_never_empty:
  assumes "fresh_ids es initial_panel"
  shows
    "storyboardSegments (run es initial_panel) \<noteq> []
     \<and> distinct (map seg_id (storyboardSegments (run es initial_panel)))
     \<and> length (storyboardSegments initial_panel) = 1
     \<and> (length (storyboardSegments s) = 1 \<longrightarrow> removeSegment i s = s)
     \<and> length (storyboardSegments s) \<le> length (storyboardSegments (addSegment rnd s))
     \<and> length (storyboardSegments (updateSegment i fld v s)) = length (storyboardSegments s)
     \<and> clampSegments now target segs \<noteq> []"
proof -
  have d: "distinct (map seg_id (storyboardSegments initial_panel))"
    and n: "storyboardSegments initial_panel \<noteq> []"
    and l: "length (storyboardSegments initial_panel) = 1"
    by (simp_all add: initial_panel_def)
  show ?thesis
    using run_inv [OF d n assms] l removeSegment_last [of s i] addSegment_length [of s rnd]
      updateSegment_length [of i fld v s] clampSegments_nonempty [of now target segs]
    by blast
qed

theorem C9_storyboard_never_empty_witness:
  "fresh_ids session_events initial_panel
   \<and> map seg_id (storyboardSegments (run session_events initial_panel)) = [js ''k3x9q2a'']
   \<and> storyboardSegments (run session_events initial_panel) \<noteq> []"
proof -
  have h: "fresh_ids session_events initial_panel"
    by (simp add: session_events_def initial_panel_def addSegment_def removeSegment_def
        totalSegmentDuration_def durationEffect_def clampSegments_def Let_def)
  have r: "map seg_id (storyboardSegments (run session_events initial_panel)) = [js ''k3x9q2a'']"
    by (simp add: session_events_def initial_panel_def addSegment_def removeSegment_def
        totalSegmentDuration_def durationEffect_def clampSegments_def Let_def)
  show ?thesis
    using C9_storyboard_never_empty [OF h] h r by simp
qed

section \<open>Error translation of the API client\<close>

lemma handleFetchError_throws: "\<exists>x. snd (handleFetchError error response) = Inl x"
  by (auto simp: handleFetchError_def split: option.splits)

lemma fetches_append: "fetches (a @ b) = fetches a @ fetches b"
  by (induction a rule: fetches.induct) auto

lemma handleFetchError_effects: "handleFetchError error response = (e, r) \<Longrightarrow> fetches e = []"
  by (auto simp: handleFetchError_def)

lemma check_ok_effects: "check_ok response = (e, r) \<Longrightarrow> fetches e = []"
  by (auto simp: check_ok_def handleFetchError_effects split: if_splits)










section \<open>Prompt optimization when the request fails\<close>

lemma optimize_try_fails:
  assumes "request_fails (fetch (optimize_request p settings mode))"
  shows "\<exists>x. snd (optimize_try fetch p settings mode) = Inl x"
proof (cases "fetch (optimize_request p settings mode)")
  case (Rejects e)
  then show ?thesis by (simp add: optimize_try_def call_fetch_def)
next
  case (Resolves r)
  with assms have "\<not> resp_ok r" by (simp add: request_fails_def)
  moreover obtain e1 x where "handleFetchError None (Some r) = (e1, Inl x)"
    using handleFetchError_throws [of None "Some r"] by (metis prod.collapse)
  ultimately show ?thesis using Resolves
    by (simp add: optimize_try_def call_fetch_def check_ok_def)
qed

text \<open>
  Claim C1 fails on the code.  Whenever the chat-completion request fails (the fetch
  rejects, or resolves with a non-success status) on a non-empty prompt,
  \<open>optimizePrompt\<close> throws, in every mode: the exception reaches the \<open>catch\<close> block,
  whose call of \<open>handleFetchError\<close> throws on each of its paths, so that the statement
  \<open>return prompt; // Fallback\<close> after it is never reached.
\<close>

theorem C1_optimizePrompt_throws_on_failure:
  assumes "user_prompt \<noteq> []"
    and "request_fails (fetch (optimize_request user_prompt settings mode))"
  shows "\<exists>x. snd (optimizePrompt fetch user_prompt settings mode) = Inl x"
proof -
  obtain e0 x where t: "optimize_try fetch user_prompt settings mode = (e0, Inl x)"
    using optimize_try_fails [of fetch user_prompt settings mode] assms(2)
    by (metis prod.collapse)
  obtain y e1 where h: "handleFetchError (Some x) None = (e1, Inl y)"
    using handleFetchError_throws [of "Some x" None] by (metis prod.collapse)
  show ?thesis using assms(1) t h by (simp add: optimizePrompt_def)
qed

text \<open>
  The failing input: the prompt \<open>a cat\<close> in text mode against a server that answers
  HTTP 500 with an empty body.  The call throws \<open>Error: Request failed: 500\<close>.
\<close>

theorem C1_optimizePrompt_throws_on_failure_witness:
  "js ''a cat'' \<noteq> []
   \<and> request_fails (failing_fetch (optimize_request (js ''a cat'') default_settings TextMode))
   \<and> snd (optimizePrompt failing_fetch (js ''a cat'') default_settings TextMode)
      = Inl (Exn (js ''Error'') (js ''Request failed: 500''))"
proof -
  have p: "js ''a cat'' \<noteq> []" by simp
  have f: "request_fails (failing_fetch (optimize_request (js ''a cat'') default_settings TextMode))"
    by (simp add: request_fails_def failing_fetch_def resp_ok_def)
  have v: "snd (optimizePrompt failing_fetch (js ''a cat'') default_settings TextMode)
           = Inl (Exn (js ''Error'') (js ''Request failed: 500''))"
    by (simp add: optimizePrompt_def optimize_try_def call_fetch_def check_ok_def
        failing_fetch_def resp_ok_def handleFetchError_def error_body_message_def
        num_to_string_def Let_def)
  show ?thesis
    using C1_optimizePrompt_throws_on_failure
      [of "js ''a cat''" failing_fetch default_settings TextMode] p f v
    by simp
qed

section \<open>Job submission with a reference image\<close>

lemma character_fields_images:
  "character_fields (request\<lparr> images := xs \<rparr>) = character_fields request"
  by (simp add: character_fields_def)

lemma standard_fields_images:
  "standard_fields (request\<lparr> images := xs \<rparr>) = standard_fields request"
  by (simp add: standard_fields_def)












section \<open>One polling tick\<close>

lemma queryVideoTask_fetches:
  "fetches (fst (queryVideoTask fetch taskId settings)) = [query_request settings taskId]"
  by (auto simp: queryVideoTask_def call_fetch_def fetches_append check_ok_effects
      split: prod.splits sum.splits fetch_result.splits)

lemma poll_iteration_fetches:
  "fetches (fst (poll_iteration fetch now settings task store))
   = [query_request settings (task_id task)]"
  using queryVideoTask_fetches [of fetch "task_id task" settings]
  by (auto simp: poll_iteration_def poll_body_def fetches_append
      split: prod.splits sum.splits option.splits)

lemma poll_iteration_returns:
  "\<exists>store'. snd (poll_iteration fetch now settings task store) = Inr store'"
  by (auto simp: poll_iteration_def split: prod.splits sum.splits)

lemma poll_loop_returns:
  "\<exists>store'. snd (poll_loop net clock settings k tasks store) = Inr store'"
proof (induction tasks arbitrary: k store)
  case Nil
  show ?case by simp
next
  case (Cons task rest)
  obtain e0 s1 where i: "poll_iteration (net k) (clock k) settings task store = (e0, Inr s1)"
    using poll_iteration_returns [of "net k" "clock k" settings task store]
    by (metis prod.collapse)
  obtain e1 s2 where l: "poll_loop net clock settings (Suc k) rest s1 = (e1, Inr s2)"
    using Cons.IH [of "Suc k" s1] by (metis prod.collapse)
  show ?case using i l by simp
qed

lemma poll_loop_fetches:
  "fetches (fst (poll_loop net clock settings k tasks store))
   = map (\<lambda>t. query_request settings (task_id t)) tasks"
proof (induction tasks arbitrary: k store)
  case Nil
  show ?case by simp
next
  case (Cons task rest)
  obtain e0 s1 where i: "poll_iteration (net k) (clock k) settings task store = (e0, Inr s1)"
    using poll_iteration_returns [of "net k" "clock k" settings task store]
    by (metis prod.collapse)
  have f: "fetches e0 = [query_request settings (task_id task)]"
    using poll_iteration_fetches [of "net k" "clock k" settings task store] i by simp
  obtain e1 r1 where l: "poll_loop net clock settings (Suc k) rest s1 = (e1, r1)"
    by (cases "poll_loop net clock settings (Suc k) rest s1")
  show ?case
    using i f l Cons.IH [of "Suc k" s1]
    by (simp add: fetches_append)
qed

lemma poll_tick_fetches:
  "fetches (fst (poll_tick net clock settings tasks))
   = map (\<lambda>t. query_request settings (task_id t)) (pendingTasks tasks)"
  by (simp add: poll_tick_def poll_loop_fetches)

lemma poll_tick_returns: "\<exists>tasks'. snd (poll_tick net clock settings tasks) = Inr tasks'"
  by (simp add: poll_tick_def poll_loop_returns)

lemma poll_ticks_history:
  "length (fst (poll_ticks net clock settings j n tasks)) = n
   \<and> (\<forall>(before, effs) \<in> set (fst (poll_ticks net clock settings j n tasks)).
         fetches effs = map (\<lambda>t. query_request settings (task_id t)) (pendingTasks before))"
proof (induction n arbitrary: j tasks)
  case 0
  show ?case by simp
next
  case (Suc n)
  obtain e0 t1 where t: "poll_tick (net j) (clock j) settings tasks = (e0, Inr t1)"
    using poll_tick_returns [of "net j" "clock j" settings tasks] by (metis prod.collapse)
  have f: "fetches e0 = map (\<lambda>t. query_request settings (task_id t)) (pendingTasks tasks)"
    using poll_tick_fetches [of "net j" "clock j" settings tasks] t by simp
  show ?case using t f Suc.IH [of "Suc j" t1] by (auto split: prod.splits)
qed

lemma poll_iteration_query_throws:
  "queryVideoTask fetch (task_id task) settings = (effs, Inl e) \<Longrightarrow>
   poll_iteration fetch now settings task store
   = (effs @ [Console (js ''Failed to poll task '' @ task_id task) (Some e)], Inr store)"
  by (simp add: poll_iteration_def poll_body_def)

lemma poll_loop_query_throws:
  "queryVideoTask (net k) (task_id task) settings = (effs, Inl e) \<Longrightarrow>
   poll_loop net clock settings k (task # rest) store
   = (effs @ [Console (js ''Failed to poll task '' @ task_id task) (Some e)]
      @ fst (poll_loop net clock settings (Suc k) rest store),
      snd (poll_loop net clock settings (Suc k) rest store))"
  by (simp add: poll_iteration_query_throws split: prod.splits)

lemma queryVideoTask_rejected:
  "fetch (query_request settings taskId) = Rejects e \<Longrightarrow>
   \<exists>effs. queryVideoTask fetch taskId settings = (effs, Inl e)"
  by (simp add: queryVideoTask_def call_fetch_def)

lemma queryVideoTask_not_ok:
  "fetch (query_request settings taskId) = Resolves r \<Longrightarrow> \<not> resp_ok r \<Longrightarrow>
   \<exists>effs e. queryVideoTask fetch taskId settings = (effs, Inl e)"
  using handleFetchError_throws [of None "Some r"]
  by (cases "handleFetchError None (Some r)")
     (auto simp: queryVideoTask_def call_fetch_def check_ok_def split: sum.splits)

lemma query_request_inj:
  "query_request settings i = query_request settings i' \<Longrightarrow> i = i'"
  by (simp add: query_request_def buildUrl_def Let_def)

lemma pending_queried:
  "t \<in> set tasks \<Longrightarrow> status t = Pending \<or> status t = Processing \<Longrightarrow>
   query_request settings (task_id t) \<in> set (fetches (fst (poll_tick net clock settings tasks)))"
  by (auto simp: poll_tick_fetches pendingTasks_def)

lemma terminal_not_queried:
  assumes "\<forall>t \<in> set tasks. task_id t = i \<longrightarrow> status t = Completed \<or> status t = Failed"
  shows "query_request settings i \<notin> set (fetches (fst (poll_tick net clock settings tasks)))"
proof
  assume "query_request settings i \<in> set (fetches (fst (poll_tick net clock settings tasks)))"
  then obtain t where "t \<in> set tasks" and "status t = Pending \<or> status t = Processing"
    and "query_request settings i = query_request settings (task_id t)"
    by (auto simp: poll_tick_fetches pendingTasks_def)
  with assms query_request_inj [of settings i "task_id t"] show False by auto
qed

lemma poll_ticks_returns: "\<exists>final. snd (poll_ticks net clock settings j n tasks) = Inr final"
proof (induction n arbitrary: j tasks)
  case 0
  show ?case by simp
next
  case (Suc n)
  obtain e0 t1 where t: "poll_tick (net j) (clock j) settings tasks = (e0, Inr t1)"
    using poll_tick_returns [of "net j" "clock j" settings tasks] by (metis prod.collapse)
  obtain h f where "poll_ticks net clock settings (Suc j) n t1 = (h, Inr f)"
    using Suc.IH [of "Suc j" t1] by (metis prod.collapse)
  with t show ?case by simp
qed

text \<open>
  Claim C7.  When the status query of a task throws, the iteration of the polling loop
  for that task leaves the whole task list as it was, writes one line to the console
  after the effects of the query, and throws nothing; the loop goes on with the
  remaining tasks on the unchanged list, and still issues the query of every task.  No
  tick throws, whatever the network does.  The query throws in particular when the fetch
  rejects (a network error) and when the response is not a success.
\<close>

theorem C7_query_failure_is_contained:
  assumes "queryVideoTask (net k) (task_id task) settings = (effs, Inl e)"
  shows
    "poll_iteration (net k) (clock k) settings task store
     = (effs @ [Console (js ''Failed to poll task '' @ task_id task) (Some e)], Inr store)
     \<and> poll_loop net clock settings k (task # rest) store
       = (effs @ [Console (js ''Failed to poll task '' @ task_id task) (Some e)]
          @ fst (poll_loop net clock settings (Suc k) rest store),
          snd (poll_loop net clock settings (Suc k) rest store))
     \<and> fetches (fst (poll_loop net clock settings k (task # rest) store))
       = map (\<lambda>t. query_request settings (task_id t)) (task # rest)
     \<and> (\<exists>tasks'. snd (poll_tick net clock settings tasks) = Inr tasks')
     \<and> (fetch (query_request settings i) = Rejects x \<longrightarrow>
          (\<exists>effs'. queryVideoTask fetch i settings = (effs', Inl x)))
     \<and> (\<forall>r. fetch (query_request settings i) = Resolves r \<and> \<not> resp_ok r \<longrightarrow>
          (\<exists>effs' x'. queryVideoTask fetch i settings = (effs', Inl x')))"
  using assms poll_iteration_query_throws [of "net k" task settings effs e "clock k" store]
    poll_loop_query_throws [of net k task settings effs e clock rest store]
    poll_loop_fetches [of net clock settings k "task # rest" store]
    poll_tick_returns [of net clock settings tasks]
    queryVideoTask_rejected [of fetch settings i x]
    queryVideoTask_not_ok [of fetch settings i]
  by blast

text \<open>
  The theorem on a pending task while the network is down: the tick logs the two console
  lines and returns the task list unchanged, the task still \<open>pending\<close>.
\<close>

theorem C7_query_failure_is_contained_witness:
  "queryVideoTask offline_fetch (task_id pending_task) default_settings
   = ([Fetch (query_request default_settings (js ''video_123'')),
       Console (js ''Error querying video task:'')
         (Some (Exn (js ''TypeError'') (js ''Failed to fetch'')))],
      Inl (Exn (js ''TypeError'') (js ''Failed to fetch'')))
   \<and> poll_tick (\<lambda>k. offline_fetch) (\<lambda>k. 1700000000000) default_settings [pending_task]
     = ([Fetch (query_request default_settings (js ''video_123'')),
         Console (js ''Error querying video task:'')
           (Some (Exn (js ''TypeError'') (js ''Failed to fetch''))),
         Console (js ''Failed to poll task video_123'')
           (Some (Exn (js ''TypeError'') (js ''Failed to fetch'')))],
        Inr [pending_task])"
proof -
  have q: "queryVideoTask offline_fetch (task_id pending_task) default_settings
           = ([Fetch (query_request default_settings (js ''video_123'')),
               Console (js ''Error querying video task:'')
                 (Some (Exn (js ''TypeError'') (js ''Failed to fetch'')))],
              Inl (Exn (js ''TypeError'') (js ''Failed to fetch'')))"
    by (simp add: queryVideoTask_def call_fetch_def offline_fetch_def pending_task_def)
  have p: "pendingTasks [pending_task] = [pending_task]"
    by (simp add: pendingTasks_def pending_task_def)
  have i: "task_id pending_task = js ''video_123''"
    by (simp add: pending_task_def)
  have "poll_loop (\<lambda>k. offline_fetch) (\<lambda>k. 1700000000000) default_settings 0
          (pending_task # []) [pending_task]
        = ([Fetch (query_request default_settings (js ''video_123'')),
            Console (js ''Error querying video task:'')
              (Some (Exn (js ''TypeError'') (js ''Failed to fetch'')))]
           @ [Console (js ''Failed to poll task '' @ task_id pending_task)
                (Some (Exn (js ''TypeError'') (js ''Failed to fetch'')))]
           @ fst (poll_loop (\<lambda>k. offline_fetch) (\<lambda>k. 1700000000000) default_settings
                    (Suc 0) [] [pending_task]),
           snd (poll_loop (\<lambda>k. offline_fetch) (\<lambda>k. 1700000000000) default_settings
                  (Suc 0) [] [pending_task]))"
    using C7_query_failure_is_contained
      [where net = "\<lambda>k. offline_fetch" and k = 0 and task = pending_task
         and settings = default_settings and clock = "\<lambda>k. 1700000000000"
         and store = "[pending_task]" and rest = "[]", OF q]
    by blast
  then show ?thesis
    using q p i by (simp add: poll_tick_def)
qed

section \<open>The merge of a reply into a task record\<close>

lemma read_prop_lookup:
  "read_prop res k = Inr v \<Longrightarrow> v = lookup_prop res k"
  by (cases res) auto

lemma poll_merge_null: "poll_merge task JNull now = Inl (null_read_error (js ''status''))"
  by (simp add: poll_merge_def)

lemma poll_merge_unfold:
  assumes "res \<noteq> JNull"
  shows "poll_merge task res now =
     Inr (if merged_status task res \<noteq> status task
             \<or> strict_neq (or_else (lookup_prop res (js ''video_url''))
                             (opt_prop (lookup_prop res (js ''detail'')) (js ''video_url'')))
                  (videoUrl task)
             \<or> strict_neq (opt_prop (lookup_prop res (js ''detail'')) (js ''progress_pct''))
                  (progress task)
          then Some (task\<lparr> status := merged_status task res,
                           videoUrl :=
                             or_else (or_else (lookup_prop res (js ''video_url''))
                                        (opt_prop (lookup_prop res (js ''detail''))
                                           (js ''video_url''))) None,
                           thumbnailUrl :=
                             or_else (opt_prop (lookup_prop res (js ''detail''))
                                        (js ''thumbnail_url'')) None,
                           progress := opt_prop (lookup_prop res (js ''detail'')) (js ''progress_pct''),
                           failureReason :=
                             opt_prop (lookup_prop res (js ''detail'')) (js ''failure_reason''),
                           completedAt :=
                             (if (merged_status task res = Completed
                                  \<or> merged_status task res = Failed)
                                 \<and> \<not> truthy (completedAt task)
                              then completion_stamp (res, now)
                              else completedAt task) \<rparr>)
          else None)"
proof -
  have "read_prop res (js ''status'') = Inr (lookup_prop res (js ''status''))"
    using assms by (cases res) simp_all
  then show ?thesis
    unfolding poll_merge_def Let_def
    by (simp only: sum.case merged_status_def response_status_def completion_stamp_def
        fst_conv snd_conv)
qed

lemma poll_merge_fields:
  assumes "poll_merge task res now = Inr (Some updated)"
  shows "status updated = merged_status task res
         \<and> completedAt updated
           = (if (merged_status task res = Completed \<or> merged_status task res = Failed)
                 \<and> \<not> truthy (completedAt task)
              then completion_stamp (res, now) else completedAt task)"
proof (cases "res = JNull")
  case True
  with assms show ?thesis by (simp add: poll_merge_null)
next
  case False
  show ?thesis
    using assms unfolding poll_merge_unfold [OF False]
    by (auto split: if_splits)
qed

lemma poll_merge_applied:
  assumes "res \<noteq> JNull" and "merged_status task res \<noteq> status task"
  shows "\<exists>updated. poll_merge task res now = Inr (Some updated)"
  unfolding poll_merge_unfold [OF assms(1)] using assms(2) by simp

lemma apply_merge_cases:
  "apply_merge task r = task
   \<or> (\<exists>updated. poll_merge task (fst r) (snd r) = Inr (Some updated)
                \<and> apply_merge task r = updated)"
  by (simp add: apply_merge_def split: sum.splits option.splits)

lemma apply_merge_stamped:
  "truthy (completedAt task) \<Longrightarrow> completedAt (apply_merge task r) = completedAt task"
  using apply_merge_cases [of task r] poll_merge_fields [of task "fst r" "snd r"]
  by auto

lemma completion_stamp_truthy: "snd r \<noteq> 0 \<Longrightarrow> truthy (completion_stamp r)"
  by (simp add: completion_stamp_def or_else_def)

lemma terminal_reply_status:
  "terminal_reply r \<longleftrightarrow> merged_status task (fst r) = Completed \<or> merged_status task (fst r) = Failed"
  if "status task = Pending \<or> status task = Processing"
  using that by (auto simp: terminal_reply_def merged_status_def)

lemma terminal_reply_not_null: "terminal_reply r \<Longrightarrow> fst r \<noteq> JNull"
  by (auto simp: terminal_reply_def response_status_def or_else_def)

lemma apply_merge_terminal:
  assumes "status task = Pending \<or> status task = Processing"
    and "\<not> truthy (completedAt task)" and "terminal_reply r"
  shows "completedAt (apply_merge task r) = completion_stamp r"
proof -
  have m: "merged_status task (fst r) = Completed \<or> merged_status task (fst r) = Failed"
    using assms(1,3) terminal_reply_status [of task r] by simp
  then have "merged_status task (fst r) \<noteq> status task" using assms(1) by auto
  then obtain updated where u: "poll_merge task (fst r) (snd r) = Inr (Some updated)"
    using poll_merge_applied [OF terminal_reply_not_null [OF assms(3)]] by blast
  then have "apply_merge task r = updated" by (simp add: apply_merge_def)
  then show ?thesis using poll_merge_fields [OF u] m assms(2) by simp
qed

lemma apply_merge_not_terminal:
  assumes "status task = Pending \<or> status task = Processing"
    and "\<not> terminal_reply r"
  shows "(status (apply_merge task r) = Pending \<or> status (apply_merge task r) = Processing)
         \<and> completedAt (apply_merge task r) = completedAt task"
proof -
  have m: "merged_status task (fst r) = Pending \<or> merged_status task (fst r) = Processing"
    using assms by (auto simp: terminal_reply_def merged_status_def)
  show ?thesis
    using apply_merge_cases [of task r] poll_merge_fields [of task "fst r" "snd r"] m assms(1)
    by auto
qed

section \<open>What a tick stores\<close>

lemma poll_merge_task_id:
  assumes "poll_merge task res now = Inr (Some updated)"
  shows "task_id updated = task_id task"
proof (cases "res = JNull")
  case True
  with assms show ?thesis by (simp add: poll_merge_null)
next
  case False
  show ?thesis
    using assms unfolding poll_merge_unfold [OF False]
    by (auto split: if_splits)
qed

lemma apply_merge_task_id: "task_id (apply_merge task r) = task_id task"
  using apply_merge_cases [of task r] poll_merge_task_id [of task "fst r" "snd r"]
  by auto

lemma poll_outcome_task_id: "task_id (poll_outcome fetch now settings task) = task_id task"
  by (simp add: poll_outcome_def apply_merge_task_id split: sum.splits)

lemma handleUpdateTask_other:
  "task_id u \<noteq> i \<Longrightarrow>
   filter (\<lambda>t. task_id t = i) (handleUpdateTask u store) = filter (\<lambda>t. task_id t = i) store"
  unfolding handleUpdateTask_def by (induction store) auto

lemma poll_iteration_cases:
  "(snd (poll_iteration fetch now settings task store) = Inr store
      \<and> poll_outcome fetch now settings task = task)
   \<or> snd (poll_iteration fetch now settings task store)
      = Inr (handleUpdateTask (poll_outcome fetch now settings task) store)"
  by (auto simp: poll_iteration_def poll_body_def poll_outcome_def apply_merge_def
      split: prod.splits sum.splits option.splits)

lemma poll_iteration_keeps:
  assumes "task_id task \<noteq> i"
    and "snd (poll_iteration fetch now settings task store) = Inr store'"
  shows "filter (\<lambda>t. task_id t = i) store' = filter (\<lambda>t. task_id t = i) store"
  using poll_iteration_cases [of fetch now settings task store] assms
    handleUpdateTask_other [of "poll_outcome fetch now settings task" i store]
  by (auto simp: poll_outcome_task_id)

lemma poll_loop_keeps:
  assumes "\<forall>t \<in> set cs. task_id t \<noteq> i"
    and "snd (poll_loop net clock settings k cs store) = Inr store'"
  shows "filter (\<lambda>t. task_id t = i) store' = filter (\<lambda>t. task_id t = i) store"
  using assms
proof (induction cs arbitrary: k store)
  case Nil
  then show ?case by simp
next
  case (Cons task rest)
  obtain e0 s1 where i: "poll_iteration (net k) (clock k) settings task store = (e0, Inr s1)"
    using poll_iteration_returns [of "net k" "clock k" settings task store]
    by (metis prod.collapse)
  have k1: "filter (\<lambda>t. task_id t = i) s1 = filter (\<lambda>t. task_id t = i) store"
    using poll_iteration_keeps [of task i "net k" "clock k" settings store s1] i Cons.prems(1)
    by simp
  have "snd (poll_loop net clock settings (Suc k) rest s1) = Inr store'"
    using Cons.prems(2) i by (simp split: prod.splits)
  then have "filter (\<lambda>t. task_id t = i) store' = filter (\<lambda>t. task_id t = i) s1"
    using Cons.IH [of "Suc k" s1] Cons.prems(1) by simp
  with k1 show ?case by simp
qed

lemma poll_tick_keeps:
  assumes "\<forall>t \<in> set tasks. task_id t = i \<longrightarrow> status t = Completed \<or> status t = Failed"
    and "snd (poll_tick net clock settings tasks) = Inr tasks'"
  shows "filter (\<lambda>t. task_id t = i) tasks' = filter (\<lambda>t. task_id t = i) tasks"
proof -
  have "\<forall>t \<in> set (pendingTasks tasks). task_id t \<noteq> i"
    using assms(1) by (auto simp: pendingTasks_def)
  then show ?thesis
    using poll_loop_keeps [of "pendingTasks tasks" i net clock settings 0 tasks tasks'] assms(2)
    by (simp add: poll_tick_def)
qed

lemma poll_ticks_never_requeried:
  assumes "\<forall>t \<in> set tasks. task_id t = i \<longrightarrow> status t = Completed \<or> status t = Failed"
  shows "\<forall>(before, effs) \<in> set (fst (poll_ticks net clock settings j n tasks)).
           query_request settings i \<notin> set (fetches effs)"
  using assms
proof (induction n arbitrary: j tasks)
  case 0
  show ?case by simp
next
  case (Suc n)
  obtain e0 t1 where t: "poll_tick (net j) (clock j) settings tasks = (e0, Inr t1)"
    using poll_tick_returns [of "net j" "clock j" settings tasks] by (metis prod.collapse)
  have q: "query_request settings i \<notin> set (fetches e0)"
    using terminal_not_queried [of tasks i settings "net j" "clock j"] Suc.prems t by simp
  have "filter (\<lambda>t. task_id t = i) t1 = filter (\<lambda>t. task_id t = i) tasks"
    using poll_tick_keeps [of tasks i "net j" "clock j" settings t1] Suc.prems t by simp
  then have "set (filter (\<lambda>t. task_id t = i) t1) = set (filter (\<lambda>t. task_id t = i) tasks)"
    by simp
  then have "\<forall>t \<in> set t1. task_id t = i \<longrightarrow> status t = Completed \<or> status t = Failed"
    using Suc.prems by auto
  then have "\<forall>(before, effs) \<in> set (fst (poll_ticks net clock settings (Suc j) n t1)).
           query_request settings i \<notin> set (fetches effs)"
    by (rule Suc.IH)
  with t q show ?case by (auto split: prod.splits)
qed

lemma handleUpdateTask_distinct:
  assumes "task_id u = task_id x"
    and "task_id x \<notin> task_id ` set pre" and "task_id x \<notin> task_id ` set xs"
  shows "handleUpdateTask u (pre @ x # xs) = pre @ u # xs"
proof -
  have a: "map (\<lambda>t. if task_id t = task_id u then u else t) pre = pre"
    using assms(1,2) by (induction pre) auto
  have b: "map (\<lambda>t. if task_id t = task_id u then u else t) xs = xs"
    using assms(1,3) by (induction xs) auto
  show ?thesis using a b assms(1) by (simp add: handleUpdateTask_def)
qed

lemma poll_loop_spec:
  assumes "distinct (map task_id xs)"
    and "task_id ` set pre \<inter> task_id ` set xs = {}"
  shows "snd (poll_loop net clock settings k (pendingTasks xs) (pre @ xs))
         = Inr (pre @ tick_spec net clock settings k xs)"
  using assms
proof (induction xs arbitrary: k pre)
  case Nil
  show ?case by (simp add: pendingTasks_def)
next
  case (Cons x xs)
  have d: "distinct (map task_id xs)" and nx: "task_id x \<notin> task_id ` set xs"
    using Cons.prems(1) by auto
  have np: "task_id x \<notin> task_id ` set pre" using Cons.prems(2) by auto
  show ?case
  proof (cases "status x = Pending \<or> status x = Processing")
    case False
    have p: "pendingTasks (x # xs) = pendingTasks xs"
      using False by (simp add: pendingTasks_def)
    have "task_id ` set (pre @ [x]) \<inter> task_id ` set xs = {}"
      using Cons.prems(2) nx by auto
    then have "snd (poll_loop net clock settings k (pendingTasks xs) ((pre @ [x]) @ xs))
               = Inr ((pre @ [x]) @ tick_spec net clock settings k xs)"
      using Cons.IH [of "pre @ [x]" k] d by blast
    then show ?thesis using p False by simp
  next
    case True
    let ?o = "poll_outcome (net k) (clock k) settings x"
    have p: "pendingTasks (x # xs) = x # pendingTasks xs"
      using True by (simp add: pendingTasks_def)
    have h: "handleUpdateTask ?o (pre @ x # xs) = pre @ ?o # xs"
      using handleUpdateTask_distinct [of ?o x pre xs] np nx
      by (simp add: poll_outcome_task_id)
    have i: "snd (poll_iteration (net k) (clock k) settings x (pre @ x # xs))
             = Inr (pre @ ?o # xs)"
      using poll_iteration_cases [of "net k" "clock k" settings x "pre @ x # xs"] h
      by auto
    then obtain e0 where i': "poll_iteration (net k) (clock k) settings x (pre @ x # xs)
             = (e0, Inr (pre @ ?o # xs))"
      by (metis prod.collapse)
    have "task_id ` set (pre @ [?o]) \<inter> task_id ` set xs = {}"
      using Cons.prems(2) nx by (auto simp: poll_outcome_task_id)
    then have "snd (poll_loop net clock settings (Suc k) (pendingTasks xs) ((pre @ [?o]) @ xs))
               = Inr ((pre @ [?o]) @ tick_spec net clock settings (Suc k) xs)"
      using Cons.IH [of "pre @ [?o]" "Suc k"] d by blast
    then show ?thesis using p True i' by (auto split: prod.splits)
  qed
qed

lemma poll_tick_spec:
  assumes "distinct (map task_id tasks)"
  shows "snd (poll_tick net clock settings tasks) = Inr (tick_spec net clock settings 0 tasks)"
  using poll_loop_spec [of tasks "[]" net clock settings 0] assms
  by (simp add: poll_tick_def)

lemma tick_spec_length: "length (tick_spec net clock settings k tasks) = length tasks"
  by (induction tasks arbitrary: k) simp_all

lemma tick_spec_ids: "map task_id (tick_spec net clock settings k tasks) = map task_id tasks"
  by (induction tasks arbitrary: k) (simp_all add: poll_outcome_task_id)

lemma tick_spec_nth:
  "p < length tasks \<Longrightarrow>
   tick_spec net clock settings k tasks ! p
   = (if status (tasks ! p) = Pending \<or> status (tasks ! p) = Processing
      then poll_outcome (net (k + query_index tasks p)) (clock (k + query_index tasks p))
             settings (tasks ! p)
      else tasks ! p)"
proof (induction tasks arbitrary: k p)
  case Nil
  then show ?case by simp
next
  case (Cons t ts)
  show ?case
  proof (cases p)
    case 0
    then show ?thesis by (simp add: query_index_def pendingTasks_def)
  next
    case (Suc q)
    then have q: "q < length ts" using Cons.prems by simp
    show ?thesis
      using Suc Cons.IH [OF q, of "Suc k"] Cons.IH [OF q, of k]
      by (simp add: query_index_def pendingTasks_def)
  qed
qed

lemma poll_outcome_throws:
  "snd (queryVideoTask fetch (task_id task) settings) = Inl e \<Longrightarrow>
   poll_outcome fetch now settings task = task"
  by (simp add: poll_outcome_def)

lemma poll_outcome_stamped:
  "truthy (completedAt task) \<Longrightarrow>
   completedAt (poll_outcome fetch now settings task) = completedAt task"
  by (simp add: poll_outcome_def apply_merge_stamped split: sum.splits)

lemma apply_merge_terminal_status:
  assumes "status task = Pending \<or> status task = Processing" and "terminal_reply r"
  shows "status (apply_merge task r) = Completed \<or> status (apply_merge task r) = Failed"
proof -
  have m: "merged_status task (fst r) = Completed \<or> merged_status task (fst r) = Failed"
    using assms terminal_reply_status [of task r] by simp
  then have "merged_status task (fst r) \<noteq> status task" using assms(1) by auto
  then obtain updated where u: "poll_merge task (fst r) (snd r) = Inr (Some updated)"
    using poll_merge_applied [OF terminal_reply_not_null [OF assms(2)]] by blast
  then have "apply_merge task r = updated" by (simp add: apply_merge_def)
  then show ?thesis using poll_merge_fields [OF u] m by simp
qed

lemma poll_outcome_terminal:
  assumes "status task = Pending \<or> status task = Processing"
    and "\<not> truthy (completedAt task)"
    and "snd (queryVideoTask fetch (task_id task) settings) = Inr res"
    and "terminal_reply (res, now)"
  shows "(status (poll_outcome fetch now settings task) = Completed
          \<or> status (poll_outcome fetch now settings task) = Failed)
         \<and> completedAt (poll_outcome fetch now settings task) = completion_stamp (res, now)"
  using apply_merge_terminal [OF assms(1,2,4)] apply_merge_terminal_status [OF assms(1,4)]
    assms(3)
  by (simp add: poll_outcome_def)

lemma poll_outcome_not_terminal:
  assumes "status task = Pending \<or> status task = Processing"
    and "snd (queryVideoTask fetch (task_id task) settings) = Inr res"
    and "\<not> terminal_reply (res, now)"
  shows "(status (poll_outcome fetch now settings task) = Pending
          \<or> status (poll_outcome fetch now settings task) = Processing)
         \<and> completedAt (poll_outcome fetch now settings task) = completedAt task"
  using apply_merge_not_terminal [OF assms(1,3)] assms(2)
  by (simp add: poll_outcome_def)

lemma tick_spec_keeps:
  assumes "p < length tasks"
  shows "(truthy (completedAt (tasks ! p)) \<longrightarrow>
            completedAt (tick_spec net clock settings k tasks ! p) = completedAt (tasks ! p))
         \<and> (status (tasks ! p) = Completed \<or> status (tasks ! p) = Failed \<longrightarrow>
            tick_spec net clock settings k tasks ! p = tasks ! p)"
  unfolding tick_spec_nth [OF assms]
  by (auto simp: poll_outcome_stamped)

lemma poll_ticks_spec:
  assumes "distinct (map task_id tasks)"
  shows "\<exists>final. snd (poll_ticks net clock settings j n tasks) = Inr final
           \<and> map task_id final = map task_id tasks
           \<and> (\<forall>p < length tasks.
                 (truthy (completedAt (tasks ! p)) \<longrightarrow>
                    completedAt (final ! p) = completedAt (tasks ! p))
                 \<and> (status (tasks ! p) = Completed \<or> status (tasks ! p) = Failed \<longrightarrow>
                    final ! p = tasks ! p))"
  using assms
proof (induction n arbitrary: j tasks)
  case 0
  show ?case by simp
next
  case (Suc n)
  let ?t1 = "tick_spec (net j) (clock j) settings 0 tasks"
  obtain e0 where t: "poll_tick (net j) (clock j) settings tasks = (e0, Inr ?t1)"
    using poll_tick_spec [OF Suc.prems, of "net j" "clock j" settings] by (metis prod.collapse)
  have ids: "map task_id ?t1 = map task_id tasks" by (rule tick_spec_ids)
  then have d1: "distinct (map task_id ?t1)" using Suc.prems by simp
  have len: "length ?t1 = length tasks" by (rule tick_spec_length)
  obtain final where f: "snd (poll_ticks net clock settings (Suc j) n ?t1) = Inr final"
    and fi: "map task_id final = map task_id ?t1"
    and fp: "\<forall>p < length ?t1.
                 (truthy (completedAt (?t1 ! p)) \<longrightarrow>
                    completedAt (final ! p) = completedAt (?t1 ! p))
                 \<and> (status (?t1 ! p) = Completed \<or> status (?t1 ! p) = Failed \<longrightarrow>
                    final ! p = ?t1 ! p)"
    using Suc.IH [OF d1, of "Suc j"] by blast
  have r: "snd (poll_ticks net clock settings j (Suc n) tasks) = Inr final"
    using t f by (auto split: prod.splits)
  have "\<forall>p < length tasks.
                 (truthy (completedAt (tasks ! p)) \<longrightarrow>
                    completedAt (final ! p) = completedAt (tasks ! p))
                 \<and> (status (tasks ! p) = Completed \<or> status (tasks ! p) = Failed \<longrightarrow>
                    final ! p = tasks ! p)"
  proof (intro allI impI)
    fix p assume p: "p < length tasks"
    have k: "(truthy (completedAt (tasks ! p)) \<longrightarrow>
            completedAt (?t1 ! p) = completedAt (tasks ! p))
         \<and> (status (tasks ! p) = Completed \<or> status (tasks ! p) = Failed \<longrightarrow>
            ?t1 ! p = tasks ! p)"
      by (rule tick_spec_keeps [OF p])
    have p1: "p < length ?t1" using p len by simp
    show "(truthy (completedAt (tasks ! p)) \<longrightarrow>
                    completedAt (final ! p) = completedAt (tasks ! p))
                 \<and> (status (tasks ! p) = Completed \<or> status (tasks ! p) = Failed \<longrightarrow>
                    final ! p = tasks ! p)"
      using k fp p1 by metis
  qed
  with r fi ids show ?case by auto
qed

section \<open>Runs that overlap\<close>

lemma poll_runs_returns:
  "\<exists>store'. snd (poll_runs net clock settings k schedule runs store) = Inr store'"
proof (induction schedule arbitrary: k runs store)
  case Nil
  show ?case by simp
next
  case (Cons r schedule)
  show ?case
  proof (cases "r < length runs")
    case False
    then show ?thesis using Cons.IH [of k runs store] by simp
  next
    case True
    show ?thesis
    proof (cases "runs ! r")
      case Nil
      then show ?thesis using True Cons.IH [of k runs store] by simp
    next
      case (Cons task rest)
      obtain e0 s1 where i: "poll_iteration (net k) (clock k) settings task store = (e0, Inr s1)"
        using poll_iteration_returns [of "net k" "clock k" settings task store]
        by (metis prod.collapse)
      obtain e1 s2 where
        l: "poll_runs net clock settings (Suc k) schedule (runs[r := rest]) s1 = (e1, Inr s2)"
        using Cons.IH [of "Suc k" "runs[r := rest]" s1] by (metis prod.collapse)
      show ?thesis using True Cons i l by simp
    qed
  qed
qed

lemma poll_runs_fetches:
  assumes "\<forall>ts \<in> set runs. set ts \<subseteq> T"
  shows "set (fetches (fst (poll_runs net clock settings k schedule runs store)))
         \<subseteq> (\<lambda>t. query_request settings (task_id t)) ` T"
  using assms
proof (induction schedule arbitrary: k runs store)
  case Nil
  show ?case by simp
next
  case (Cons r schedule)
  show ?case
  proof (cases "r < length runs")
    case False
    then show ?thesis using Cons.IH [of runs k store] Cons.prems by simp
  next
    case True
    show ?thesis
    proof (cases "runs ! r")
      case Nil
      then show ?thesis using True Cons.IH [of runs k store] Cons.prems by simp
    next
      case c: (Cons task rest)
      obtain e0 s1 where i: "poll_iteration (net k) (clock k) settings task store = (e0, Inr s1)"
        using poll_iteration_returns [of "net k" "clock k" settings task store]
        by (metis prod.collapse)
      have f: "fetches e0 = [query_request settings (task_id task)]"
        using poll_iteration_fetches [of "net k" "clock k" settings task store] i by simp
      obtain e1 r1 where
        l: "poll_runs net clock settings (Suc k) schedule (runs[r := rest]) s1 = (e1, r1)"
        by (cases "poll_runs net clock settings (Suc k) schedule (runs[r := rest]) s1")
      have m: "runs ! r \<in> set runs" using True by simp
      then have "set (runs ! r) \<subseteq> T" using Cons.prems by blast
      then have tr: "set (task # rest) \<subseteq> T" using c by simp
      have "\<forall>ts \<in> set (runs[r := rest]). set ts \<subseteq> T"
      proof
        fix ts assume "ts \<in> set (runs[r := rest])"
        then have "ts \<in> insert rest (set runs)"
          using set_update_subset_insert [of runs r rest] by blast
        then show "set ts \<subseteq> T" using tr Cons.prems by auto
      qed
      then have "set (fetches e1) \<subseteq> (\<lambda>t. query_request settings (task_id t)) ` T"
        using Cons.IH [of "runs[r := rest]" "Suc k" s1] l by simp
      then show ?thesis using True c i f l tr by (simp add: fetches_append)
    qed
  qed
qed

lemma poll_runs_captured:
  "set (fetches (fst (poll_runs net clock settings k schedule (map pendingTasks captured) store)))
   \<subseteq> (\<lambda>t. query_request settings (task_id t))
       ` {t. (\<exists>c \<in> set captured. t \<in> set c) \<and> (status t = Pending \<or> status t = Processing)}"
  by (rule poll_runs_fetches) (auto simp: pendingTasks_def)

lemma poll_runs_single:
  "poll_runs net clock settings k (replicate (length ts) 0) [ts] store
   = poll_loop net clock settings k ts store"
  by (induction ts arbitrary: k store) (simp_all split: prod.splits sum.splits)

lemma example_iterations:
  "poll_iteration server_fetch now default_settings processing_task store
   = ([Fetch (query_request default_settings (js ''video_123''))], Inr store)"
  "poll_iteration server_fetch now default_settings second_task store
   = ([Fetch (query_request default_settings (js ''video_456''))],
      Inr (handleUpdateTask (second_task\<lparr> status := Completed, completedAt := Some (JNum now) \<rparr>)
             store))"
  by (simp_all add: poll_iteration_def poll_body_def queryVideoTask_def call_fetch_def
      check_ok_def server_fetch_def resp_ok_def query_request_def default_settings_def
      buildUrl_def poll_merge_def Let_def or_else_def strict_neq_def processing_task_def
      second_task_def pending_task_def processing_reply_def unstamped_reply_def)

lemma overlap_first_run:
  "poll_runs (\<lambda>k. server_fetch) overlap_clock default_settings 0 [0, 0]
     [overlap_tasks, overlap_tasks] overlap_tasks
   = ([Fetch (query_request default_settings (js ''video_123'')),
       Fetch (query_request default_settings (js ''video_456''))],
      Inr [processing_task, finished_task])"
  by (simp add: overlap_tasks_def example_iterations overlap_clock_def)
     (simp add: handleUpdateTask_def finished_task_def processing_task_def second_task_def
        pending_task_def)

lemma overlap_second_run:
  "poll_runs (\<lambda>k. server_fetch) overlap_clock default_settings 2 [1, 1]
     [[], overlap_tasks] [processing_task, finished_task]
   = ([Fetch (query_request default_settings (js ''video_123'')),
       Fetch (query_request default_settings (js ''video_456''))],
      Inr [processing_task,
           second_task\<lparr> status := Completed, completedAt := Some (JNum 1700000010000) \<rparr>])"
  by (simp add: overlap_tasks_def example_iterations overlap_clock_def)
     (simp add: handleUpdateTask_def finished_task_def processing_task_def second_task_def
        pending_task_def)

lemma overlap_both_runs:
  "poll_runs (\<lambda>k. server_fetch) overlap_clock default_settings 0 [0, 0, 1, 1]
     [overlap_tasks, overlap_tasks] overlap_tasks
   = ([Fetch (query_request default_settings (js ''video_123'')),
       Fetch (query_request default_settings (js ''video_456'')),
       Fetch (query_request default_settings (js ''video_123'')),
       Fetch (query_request default_settings (js ''video_456''))],
      Inr [processing_task,
           second_task\<lparr> status := Completed, completedAt := Some (JNum 1700000010000) \<rparr>])"
  by (simp add: overlap_tasks_def example_iterations overlap_clock_def)
     (simp add: handleUpdateTask_def finished_task_def processing_task_def second_task_def
        pending_task_def)

lemma finished_ticks:
  "poll_ticks (\<lambda>j k. server_fetch) clock default_settings j n [processing_task, finished_task]
   = (replicate n ([processing_task, finished_task],
                   [Fetch (query_request default_settings (js ''video_123''))]),
      Inr [processing_task, finished_task])"
proof -
  have t: "\<And>c. poll_tick (\<lambda>k. server_fetch) c default_settings [processing_task, finished_task]
        = ([Fetch (query_request default_settings (js ''video_123''))],
           Inr [processing_task, finished_task])"
    by (simp add: poll_tick_def pendingTasks_def example_iterations)
       (simp add: processing_task_def finished_task_def second_task_def pending_task_def)
  show ?thesis by (induction n arbitrary: j) (simp_all add: t)
qed

section \<open>The tasks a tick queries\<close>

text \<open>
  Claim C6, as stated, on two runs of the interval callback that overlap.  Both runs
  captured the list of the tasks \<open>video_123\<close> (processing) and \<open>video_456\<close> (pending);
  the second run started while the first was still waiting for its first reply, so
  before the list changed.  The first run then makes its two iterations: the server
  reports \<open>video_456\<close> completed, and the list holds that task with the status
  \<open>completed\<close>.  After that the second run makes its two iterations on the tasks it
  captured, and issues the status query of \<open>video_456\<close> again, although the status of
  that task is \<open>completed\<close> by then.
\<close>

theorem C6_overlapping_runs_counterexample:
  "pendingTasks overlap_tasks = overlap_tasks
   \<and> snd (poll_runs (\<lambda>k. server_fetch) overlap_clock default_settings 0 [0, 0]
            [overlap_tasks, overlap_tasks] overlap_tasks)
     = Inr [processing_task, finished_task]
   \<and> task_id finished_task = js ''video_456''
   \<and> status finished_task = Completed
   \<and> fetches (fst (poll_runs (\<lambda>k. server_fetch) overlap_clock default_settings 2 [1, 1]
                      [[], overlap_tasks] [processing_task, finished_task]))
     = [query_request default_settings (js ''video_123''),
        query_request default_settings (js ''video_456'')]
   \<and> fetches (fst (poll_runs (\<lambda>k. server_fetch) overlap_clock default_settings 0 [0, 0, 1, 1]
                      [overlap_tasks, overlap_tasks] overlap_tasks))
     = [query_request default_settings (js ''video_123''),
        query_request default_settings (js ''video_456''),
        query_request default_settings (js ''video_123''),
        query_request default_settings (js ''video_456'')]"
  unfolding overlap_first_run overlap_second_run overlap_both_runs
  by (simp add: pendingTasks_def overlap_tasks_def processing_task_def second_task_def
      pending_task_def finished_task_def)

text \<open>
  Claim C6, amended.  A run of the interval callback issues the status queries of
  exactly the tasks whose status is \<open>pending\<close> or \<open>processing\<close> in the list it captured,
  one for each, in list order, whatever the task list holds when the query is made; in
  any interleaving of runs, every query issued is that of a task that is \<open>pending\<close> or
  \<open>processing\<close> in a captured list, and the runs throw nothing.  For ticks that do not
  overlap, each starting on the list the previous one left, the captured list is the
  list at the start of the tick: a tick issues a status query for a task if and only if
  the task is \<open>pending\<close> or \<open>processing\<close> when the tick starts, and an identifier all
  of whose records are \<open>completed\<close> or \<open>failed\<close> is queried neither in that tick nor
  in any later one.  There is no ceiling: for every number \<open>n\<close> of ticks, whatever the
  network answers, all \<open>n\<close> ticks run to their end, and each of them queries exactly
  the tasks that are not terminal when it starts.
\<close>

theorem C6_polling_follows_status:
  "fetches (fst (poll_loop net clock settings k (pendingTasks captured) store))
   = map (\<lambda>t. query_request settings (task_id t)) (pendingTasks captured)
   \<and> fetches (fst (poll_tick net clock settings tasks))
     = map (\<lambda>t. query_request settings (task_id t)) (pendingTasks tasks)
   \<and> (\<forall>t \<in> set tasks. status t = Pending \<or> status t = Processing \<longrightarrow>
         query_request settings (task_id t)
         \<in> set (fetches (fst (poll_tick net clock settings tasks))))
   \<and> ((\<forall>t \<in> set tasks. task_id t = i \<longrightarrow> status t = Completed \<or> status t = Failed) \<longrightarrow>
        query_request settings i \<notin> set (fetches (fst (poll_tick net clock settings tasks)))
        \<and> (\<forall>(before, effs) \<in> set (fst (poll_ticks nets clocks settings j n tasks)).
              query_request settings i \<notin> set (fetches effs)))
   \<and> length (fst (poll_ticks nets clocks settings j n tasks)) = n
   \<and> (\<forall>(before, effs) \<in> set (fst (poll_ticks nets clocks settings j n tasks)).
         fetches effs = map (\<lambda>t. query_request settings (task_id t)) (pendingTasks before))
   \<and> (\<exists>final. snd (poll_ticks nets clocks settings j n tasks) = Inr final)
   \<and> set (fetches (fst (poll_runs net clock settings k schedule (map pendingTasks captures) store)))
     \<subseteq> (\<lambda>t. query_request settings (task_id t))
         ` {t. (\<exists>c \<in> set captures. t \<in> set c) \<and> (status t = Pending \<or> status t = Processing)}
   \<and> (\<exists>store'. snd (poll_runs net clock settings k schedule (map pendingTasks captures) store)
                 = Inr store')"
  using poll_loop_fetches [of net clock settings k "pendingTasks captured" store]
    poll_tick_fetches [of net clock settings tasks]
    pending_queried [of _ tasks settings net clock]
    terminal_not_queried [of tasks i settings net clock]
    poll_ticks_never_requeried [of tasks i nets clocks settings j n]
    poll_ticks_history [of nets clocks settings j n tasks]
    poll_ticks_returns [of nets clocks settings j n tasks]
    poll_runs_captured [of net clock settings k schedule captures store]
    poll_runs_returns [of net clock settings k schedule "map pendingTasks captures" store]
  by blast

text \<open>
  The theorem on the list of \<open>video_123\<close>, which the server never reports finished, and
  \<open>video_456\<close>, which is completed: for every \<open>n\<close>, each of \<open>n\<close> ticks issues the
  query of \<open>video_123\<close> and no tick issues that of \<open>video_456\<close>.
\<close>

theorem C6_polling_follows_status_witness:
  "task_id processing_task \<noteq> js ''video_456''
   \<and> task_id finished_task = js ''video_456''
   \<and> status finished_task = Completed
   \<and> status processing_task = Processing
   \<and> (\<forall>n. list_all (\<lambda>(before, effs).
                  query_request default_settings (js ''video_456'') \<notin> set (fetches effs))
             (fst (poll_ticks (\<lambda>j k. server_fetch) (\<lambda>j. overlap_clock) default_settings 0 n
                     [processing_task, finished_task]))
          \<and> fst (poll_ticks (\<lambda>j k. server_fetch) (\<lambda>j. overlap_clock) default_settings 0 n
                   [processing_task, finished_task])
            = replicate n ([processing_task, finished_task],
                           [Fetch (query_request default_settings (js ''video_123''))]))"
proof -
  have a: "task_id processing_task \<noteq> js ''video_456''"
    and b: "task_id finished_task = js ''video_456''"
    and c: "status finished_task = Completed" and d: "status processing_task = Processing"
    by (simp_all add: processing_task_def finished_task_def second_task_def pending_task_def)
  have h: "\<forall>t \<in> set [processing_task, finished_task].
             task_id t = js ''video_456'' \<longrightarrow> status t = Completed \<or> status t = Failed"
    using a c by simp
  have "\<forall>n. \<forall>(before, effs) \<in> set (fst (poll_ticks (\<lambda>j k. server_fetch) (\<lambda>j. overlap_clock)
                                         default_settings 0 n [processing_task, finished_task])).
              query_request default_settings (js ''video_456'') \<notin> set (fetches effs)"
    using C6_polling_follows_status
      [where tasks = "[processing_task, finished_task]" and i = "js ''video_456''"
         and settings = default_settings and nets = "\<lambda>j k. server_fetch"
         and clocks = "\<lambda>j. overlap_clock" and j = 0] h
    by blast
  then have "\<forall>n. list_all (\<lambda>(before, effs).
                  query_request default_settings (js ''video_456'') \<notin> set (fetches effs))
             (fst (poll_ticks (\<lambda>j k. server_fetch) (\<lambda>j. overlap_clock) default_settings 0 n
                     [processing_task, finished_task]))"
    unfolding list_all_iff .
  then show ?thesis using a b c d by (simp add: finished_ticks)
qed

section \<open>The completion stamp\<close>

text \<open>
  A tick on one pending task whose reply carries a \<open>status_update_time\<close> of 0, and a
  tick on a list in which two records carry the same id: the first iteration stamps
  both records, and the second, made from the pending record the tick captured, stamps
  both again with the later clock reading; hence the distinct ids in the theorem below.
\<close>

lemma zero_stamp_tick:
  "snd (poll_tick (\<lambda>k. zero_stamp_fetch) (\<lambda>k. 1700000000000) default_settings [pending_task])
   = Inr [pending_task\<lparr> status := Completed, completedAt := Some (JNum 1700000000000) \<rparr>]"
  by (simp add: poll_tick_def pendingTasks_def pending_task_def
      poll_iteration_def poll_body_def queryVideoTask_def call_fetch_def check_ok_def
      zero_stamp_fetch_def zero_stamp_reply_def resp_ok_def poll_merge_def Let_def or_else_def
      strict_neq_def handleUpdateTask_def)

lemma duplicate_ids_are_restamped:
  "snd (poll_loop (\<lambda>k. server_fetch) overlap_clock default_settings 0 [second_task]
          [second_task, second_task])
   = Inr [second_task\<lparr> status := Completed, completedAt := Some (JNum 1700000004000) \<rparr>,
          second_task\<lparr> status := Completed, completedAt := Some (JNum 1700000004000) \<rparr>]
   \<and> snd (poll_tick (\<lambda>k. server_fetch) overlap_clock default_settings
            [second_task, second_task])
     = Inr [second_task\<lparr> status := Completed, completedAt := Some (JNum 1700000006000) \<rparr>,
            second_task\<lparr> status := Completed, completedAt := Some (JNum 1700000006000) \<rparr>]"
  by (simp add: poll_tick_def pendingTasks_def example_iterations overlap_clock_def)
     (simp add: handleUpdateTask_def second_task_def pending_task_def)

lemma stamping_tick:
  "tick_spec (\<lambda>k. stamping_fetch) overlap_clock default_settings 0 overlap_tasks
   = [processing_task, stamped_task]"
  by (simp add: overlap_tasks_def poll_outcome_def apply_merge_def queryVideoTask_def
      call_fetch_def check_ok_def stamping_fetch_def resp_ok_def query_request_def
      default_settings_def buildUrl_def poll_merge_def Let_def or_else_def strict_neq_def
      processing_task_def second_task_def pending_task_def stamped_task_def
      completed_reply_def processing_reply_def)

text \<open>
  Claim C2, as stated, fails in two ways.  On a pending task and a terminal reply whose
  \<open>status_update_time\<close> is present and 0, the source evaluates
  \<open>res.status_update_time || Date.now()\<close>, so the tick stores the clock reading as the
  completion timestamp, not the value the reply carries.  And on two runs of the
  interval callback that overlap (both captured the tasks \<open>video_123\<close> and \<open>video_456\<close>
  before the list changed), the first run stores \<open>video_456\<close> completed and stamped
  with the clock reading 1700000006000; the second run builds its update from the
  pending record it captured, whose completion timestamp is unset, and overwrites the
  stamp with the later clock reading 1700000010000.
\<close>

theorem C2_restamped_counterexample:
  "status pending_task = Pending
   \<and> completedAt pending_task = None
   \<and> zero_stamp_fetch (query_request default_settings (task_id pending_task))
     = Resolves \<lparr> resp_status = 200,
                  resp_text = js ''{\"status\":\"completed\",\"status_update_time\":0}'',
                  resp_json = Inr zero_stamp_reply \<rparr>
   \<and> lookup_prop zero_stamp_reply (js ''status_update_time'') = Some (JNum 0)
   \<and> snd (poll_tick (\<lambda>k. zero_stamp_fetch) (\<lambda>k. 1700000000000) default_settings [pending_task])
     = Inr [pending_task\<lparr> status := Completed, completedAt := Some (JNum 1700000000000) \<rparr>]
   \<and> snd (poll_runs (\<lambda>k. server_fetch) overlap_clock default_settings 0 [0, 0]
            [overlap_tasks, overlap_tasks] overlap_tasks)
     = Inr [processing_task,
            second_task\<lparr> status := Completed, completedAt := Some (JNum 1700000006000) \<rparr>]
   \<and> snd (poll_runs (\<lambda>k. server_fetch) overlap_clock default_settings 0 [0, 0, 1, 1]
            [overlap_tasks, overlap_tasks] overlap_tasks)
     = Inr [processing_task,
            second_task\<lparr> status := Completed, completedAt := Some (JNum 1700000010000) \<rparr>]"
  unfolding overlap_first_run overlap_both_runs zero_stamp_tick
  by (simp add: pending_task_def zero_stamp_fetch_def zero_stamp_reply_def finished_task_def)

text \<open>
  Claim C2, amended.  Take a task list with pairwise distinct ids and polling ticks that
  do not overlap.  A tick stores exactly this: each task that is \<open>pending\<close> or
  \<open>processing\<close> at its start is replaced by the outcome of its query, the other tasks
  stay as they are.  The outcome of a query that throws is the task unchanged.  The
  outcome keeps a completion timestamp that is set (truthy).  For a task that is
  \<open>pending\<close> or \<open>processing\<close> with no completion timestamp set, a reply whose status
  is \<open>completed\<close> or \<open>failed\<close> makes the task terminal and stamps it with the
  \<open>status_update_time\<close> of the reply if that is truthy (present and not 0) and with the
  clock reading otherwise; any other reply leaves the task non-terminal and its
  completion timestamp as it was.  Over any number of ticks, a completion timestamp that
  is set is never changed, and the record of a task that is \<open>completed\<close> or \<open>failed\<close>
  is never changed at all.
\<close>

theorem C2_completion_stamped_once:
  assumes "distinct (map task_id tasks)"
  shows
    "snd (poll_tick net clock settings tasks) = Inr (tick_spec net clock settings 0 tasks)
     \<and> length (tick_spec net clock settings 0 tasks) = length tasks
     \<and> (\<forall>p < length tasks.
           tick_spec net clock settings 0 tasks ! p
           = (if status (tasks ! p) = Pending \<or> status (tasks ! p) = Processing
              then poll_outcome (net (query_index tasks p)) (clock (query_index tasks p))
                     settings (tasks ! p)
              else tasks ! p))
     \<and> (snd (queryVideoTask fetch (task_id task) settings) = Inl e \<longrightarrow>
          poll_outcome fetch now settings task = task)
     \<and> (truthy (completedAt task) \<longrightarrow>
          completedAt (poll_outcome fetch now settings task) = completedAt task)
     \<and> ((status task = Pending \<or> status task = Processing) \<and> \<not> truthy (completedAt task)
         \<and> snd (queryVideoTask fetch (task_id task) settings) = Inr res
         \<and> (response_status res = Some (JStr (js ''completed''))
            \<or> response_status res = Some (JStr (js ''failed''))) \<longrightarrow>
          (status (poll_outcome fetch now settings task) = Completed
           \<or> status (poll_outcome fetch now settings task) = Failed)
          \<and> completedAt (poll_outcome fetch now settings task)
            = (if truthy (lookup_prop res (js ''status_update_time''))
               then lookup_prop res (js ''status_update_time'') else Some (JNum now)))
     \<and> ((status task = Pending \<or> status task = Processing)
         \<and> snd (queryVideoTask fetch (task_id task) settings) = Inr res
         \<and> \<not> (response_status res = Some (JStr (js ''completed''))
              \<or> response_status res = Some (JStr (js ''failed''))) \<longrightarrow>
          (status (poll_outcome fetch now settings task) = Pending
           \<or> status (poll_outcome fetch now settings task) = Processing)
          \<and> completedAt (poll_outcome fetch now settings task) = completedAt task)
     \<and> (\<exists>final. snd (poll_ticks nets clocks settings j n tasks) = Inr final
           \<and> map task_id final = map task_id tasks
           \<and> (\<forall>p < length tasks.
                 (truthy (completedAt (tasks ! p)) \<longrightarrow>
                    completedAt (final ! p) = completedAt (tasks ! p))
                 \<and> (status (tasks ! p) = Completed \<or> status (tasks ! p) = Failed \<longrightarrow>
                    final ! p = tasks ! p)))"
proof -
  have nth: "\<forall>p < length tasks.
           tick_spec net clock settings 0 tasks ! p
           = (if status (tasks ! p) = Pending \<or> status (tasks ! p) = Processing
              then poll_outcome (net (query_index tasks p)) (clock (query_index tasks p))
                     settings (tasks ! p)
              else tasks ! p)"
    using tick_spec_nth [of _ tasks net clock settings 0] by simp
  have stamp: "completion_stamp (res, now)
               = (if truthy (lookup_prop res (js ''status_update_time''))
                  then lookup_prop res (js ''status_update_time'') else Some (JNum now))"
    by (simp add: completion_stamp_def or_else_def)
  have tr: "terminal_reply (res, now)
              \<longleftrightarrow> response_status res = Some (JStr (js ''completed''))
                  \<or> response_status res = Some (JStr (js ''failed''))"
    by (simp add: terminal_reply_def)
  have t: "(status task = Pending \<or> status task = Processing) \<and> \<not> truthy (completedAt task)
         \<and> snd (queryVideoTask fetch (task_id task) settings) = Inr res
         \<and> (response_status res = Some (JStr (js ''completed''))
            \<or> response_status res = Some (JStr (js ''failed''))) \<longrightarrow>
          (status (poll_outcome fetch now settings task) = Completed
           \<or> status (poll_outcome fetch now settings task) = Failed)
          \<and> completedAt (poll_outcome fetch now settings task)
            = (if truthy (lookup_prop res (js ''status_update_time''))
               then lookup_prop res (js ''status_update_time'') else Some (JNum now))"
    using poll_outcome_terminal [of task fetch settings res now] tr stamp by metis
  have u: "(status task = Pending \<or> status task = Processing)
         \<and> snd (queryVideoTask fetch (task_id task) settings) = Inr res
         \<and> \<not> (response_status res = Some (JStr (js ''completed''))
              \<or> response_status res = Some (JStr (js ''failed''))) \<longrightarrow>
          (status (poll_outcome fetch now settings task) = Pending
           \<or> status (poll_outcome fetch now settings task) = Processing)
          \<and> completedAt (poll_outcome fetch now settings task) = completedAt task"
    using poll_outcome_not_terminal [of task fetch settings res now] tr by metis
  show ?thesis
    using poll_tick_spec [OF assms, of net clock settings]
      tick_spec_length [of net clock settings 0 tasks] nth
      poll_outcome_throws [of fetch task settings e now]
      poll_outcome_stamped [of task fetch now settings] t u
      poll_ticks_spec [OF assms, of nets clocks settings j n]
    by blast
qed

text \<open>
  The theorem on the tasks \<open>video_123\<close> and \<open>video_456\<close>: a tick in which the server
  reports \<open>video_456\<close> completed with a \<open>status_update_time\<close> of 1700000090 stores that
  stamp, and no number of later ticks changes the record.
\<close>

theorem C2_completion_stamped_once_witness:
  "distinct (map task_id overlap_tasks)
   \<and> snd (poll_tick (\<lambda>k. stamping_fetch) overlap_clock default_settings overlap_tasks)
     = Inr [processing_task, stamped_task]
   \<and> status stamped_task = Completed
   \<and> completedAt stamped_task = Some (JNum 1700000090)
   \<and> distinct (map task_id [processing_task, stamped_task])
   \<and> (\<forall>n. \<exists>final. snd (poll_ticks (\<lambda>j k. server_fetch) (\<lambda>j. overlap_clock) default_settings
                          0 n [processing_task, stamped_task]) = Inr final
              \<and> final ! 1 = stamped_task)"
proof -
  have d: "distinct (map task_id overlap_tasks)"
    and d': "distinct (map task_id [processing_task, stamped_task])"
    and s: "status stamped_task = Completed"
    and c: "completedAt stamped_task = Some (JNum 1700000090)"
    by (simp_all add: overlap_tasks_def processing_task_def stamped_task_def second_task_def
        pending_task_def)
  have t: "snd (poll_tick (\<lambda>k. stamping_fetch) overlap_clock default_settings overlap_tasks)
           = Inr [processing_task, stamped_task]"
    using C2_completion_stamped_once [OF d, of "\<lambda>k. stamping_fetch" overlap_clock default_settings]
    unfolding stamping_tick by blast
  have "\<forall>n. \<exists>final. snd (poll_ticks (\<lambda>j k. server_fetch) (\<lambda>j. overlap_clock) default_settings
                          0 n [processing_task, stamped_task]) = Inr final
              \<and> final ! 1 = stamped_task"
  proof
    fix n
    obtain final where
      f: "snd (poll_ticks (\<lambda>j k. server_fetch) (\<lambda>j. overlap_clock) default_settings
                 0 n [processing_task, stamped_task]) = Inr final"
      and k: "\<forall>p < length [processing_task, stamped_task].
                (truthy (completedAt ([processing_task, stamped_task] ! p)) \<longrightarrow>
                   completedAt (final ! p) = completedAt ([processing_task, stamped_task] ! p))
                \<and> (status ([processing_task, stamped_task] ! p) = Completed
                   \<or> status ([processing_task, stamped_task] ! p) = Failed \<longrightarrow>
                   final ! p = [processing_task, stamped_task] ! p)"
      using C2_completion_stamped_once
        [OF d', where nets = "\<lambda>j k. server_fetch" and clocks = "\<lambda>j. overlap_clock"
           and settings = default_settings and j = 0 and n = n]
      by blast
    have "final ! 1 = stamped_task" using k [rule_format, of 1] s by simp
    with f show "\<exists>final. snd (poll_ticks (\<lambda>j k. server_fetch) (\<lambda>j. overlap_clock)
                                default_settings 0 n [processing_task, stamped_task]) = Inr final
              \<and> final ! 1 = stamped_task"
      by blast
  qed
  then show ?thesis using d d' s c t by blast
qed

end
